theory Spec2Isabelle
  imports Main "HOL-Library.Sublist"
begin

section \<open>Data returned by the remote services\<close>

text \<open>
  The script reads two fields of an auto scaling group description
  (\<open>asg['DesiredCapacity']\<close>, \<open>asg['MaxSize']\<close>) and two fields of a container instance
  description (\<open>runningTasksCount\<close>, \<open>ec2InstanceId\<close>). Python integers are unbounded,
  hence \<open>int\<close>.
\<close>

record asg =
  DesiredCapacity :: int
  MaxSize :: int

record container_instance =
  runningTasksCount :: int
  ec2InstanceId :: string

text \<open>
  A remote call raises a boto client error; indexing an empty response list with \<open>[0]\<close>
  raises Python's \<open>IndexError\<close>.
\<close>

datatype error = ClientError string | IndexError

section \<open>The remote services and the trace of a run\<close>

text \<open>
  The two boto clients (\<open>autoscaling\<close>, \<open>ecs\<close>) and \<open>time.sleep\<close> are the only way the
  script touches the outside. They are a parameter of the model: a record of operations
  over an arbitrary world \<open>'w\<close>. Every operation may fail and may change the world; how
  the world reacts is not constrained.
\<close>

record 'w backend =
  suspend_processes :: "string \<Rightarrow> string list \<Rightarrow> 'w \<Rightarrow> (error + unit) \<times> 'w"
  resume_processes :: "string \<Rightarrow> string list \<Rightarrow> 'w \<Rightarrow> (error + unit) \<times> 'w"
  describe_auto_scaling_groups :: "string list \<Rightarrow> 'w \<Rightarrow> (error + asg list) \<times> 'w"
  update_auto_scaling_group :: "string \<Rightarrow> int \<Rightarrow> int \<Rightarrow> 'w \<Rightarrow> (error + unit) \<times> 'w"
  terminate_instance_in_auto_scaling_group :: "string \<Rightarrow> bool \<Rightarrow> 'w \<Rightarrow> (error + unit) \<times> 'w"
  list_container_instances :: "string \<Rightarrow> 'w \<Rightarrow> (error + string list) \<times> 'w"
  update_container_instances_state ::
    "string \<Rightarrow> string list \<Rightarrow> string \<Rightarrow> 'w \<Rightarrow> (error + unit) \<times> 'w"
  describe_container_instances ::
    "string \<Rightarrow> string list \<Rightarrow> 'w \<Rightarrow> (error + container_instance list) \<times> 'w"
  sleep :: "int \<Rightarrow> 'w \<Rightarrow> 'w"

text \<open>
  A run is observed through its trace: one entry per remote call (or sleep), in program
  order, with the arguments the script passed and what came back.
  \<open>UpdateAutoScalingGroup name max desired\<close> carries \<open>MaxSize\<close> before
  \<open>DesiredCapacity\<close>, as the script writes the keyword arguments.
\<close>

datatype call =
    SuspendProcesses string "string list"
  | ResumeProcesses string "string list"
  | DescribeAutoScalingGroups "string list"
  | UpdateAutoScalingGroup string int int
  | TerminateInstanceInAutoScalingGroup string bool
  | ListContainerInstances string
  | UpdateContainerInstancesState string "string list" string
  | DescribeContainerInstances string "string list"
  | Sleep int

datatype reply =
    Ok
  | Failed error
  | Asgs "asg list"
  | Arns "string list"
  | Instances "container_instance list"

type_synonym entry = "call \<times> reply"

text \<open>
  A statement of the script either returns a value, raises, or (a \<open>while True\<close> loop of
  the script bounded by fuel in the model) is still polling when the fuel is used up.
  In each case the trace so far and the world are kept.
\<close>

datatype 'a result = Returned 'a | Raised error | OutOfFuel

type_synonym ('a, 'w) act = "'w \<Rightarrow> 'a result \<times> entry list \<times> 'w"

definition outcome :: "'a result \<times> entry list \<times> 'w \<Rightarrow> 'a result" where
  "outcome x = fst x"

definition trace :: "'a result \<times> entry list \<times> 'w \<Rightarrow> entry list" where
  "trace x = fst (snd x)"

definition world :: "'a result \<times> entry list \<times> 'w \<Rightarrow> 'w" where
  "world x = snd (snd x)"

definition ret :: "'a \<Rightarrow> ('a, 'w) act" where
  "ret a w = (Returned a, [], w)"

definition raise :: "error \<Rightarrow> ('a, 'w) act" where
  "raise e w = (Raised e, [], w)"

text \<open>Sequencing of two statements: the second runs only when the first returned.\<close>

definition seqr :: "('a, 'w) act \<Rightarrow> ('a \<Rightarrow> ('b, 'w) act) \<Rightarrow> ('b, 'w) act" where
  "seqr m f w =
     (case m w of
        (Returned a, t1, w1) \<Rightarrow> (case f a w1 of (r, t2, w2) \<Rightarrow> (r, t1 @ t2, w2))
      | (Raised e, t1, w1) \<Rightarrow> (Raised e, t1, w1)
      | (OutOfFuel, t1, w1) \<Rightarrow> (OutOfFuel, t1, w1))"

text \<open>One remote call: the call is recorded with its reply, an error is raised.\<close>

definition remote :: "call \<Rightarrow> ('a \<Rightarrow> reply) \<Rightarrow> ('w \<Rightarrow> (error + 'a) \<times> 'w) \<Rightarrow> ('a, 'w) act" where
  "remote c rep op w =
     (case op w of
        (Inl e, w') \<Rightarrow> (Raised e, [(c, Failed e)], w')
      | (Inr a, w') \<Rightarrow> (Returned a, [(c, rep a)], w'))"

definition autoscaling_suspend_processes ::
  "'w backend \<Rightarrow> string \<Rightarrow> string list \<Rightarrow> (unit, 'w) act" where
  "autoscaling_suspend_processes B name procs =
     remote (SuspendProcesses name procs) (\<lambda>_. Ok) (suspend_processes B name procs)"

definition autoscaling_resume_processes ::
  "'w backend \<Rightarrow> string \<Rightarrow> string list \<Rightarrow> (unit, 'w) act" where
  "autoscaling_resume_processes B name procs =
     remote (ResumeProcesses name procs) (\<lambda>_. Ok) (resume_processes B name procs)"

definition autoscaling_describe_auto_scaling_groups ::
  "'w backend \<Rightarrow> string list \<Rightarrow> (asg list, 'w) act" where
  "autoscaling_describe_auto_scaling_groups B names =
     remote (DescribeAutoScalingGroups names) Asgs (describe_auto_scaling_groups B names)"

definition autoscaling_update_auto_scaling_group ::
  "'w backend \<Rightarrow> string \<Rightarrow> int \<Rightarrow> int \<Rightarrow> (unit, 'w) act" where
  "autoscaling_update_auto_scaling_group B name max_size desired_capacity =
     remote (UpdateAutoScalingGroup name max_size desired_capacity) (\<lambda>_. Ok)
       (update_auto_scaling_group B name max_size desired_capacity)"

definition autoscaling_terminate_instance_in_auto_scaling_group ::
  "'w backend \<Rightarrow> string \<Rightarrow> bool \<Rightarrow> (unit, 'w) act" where
  "autoscaling_terminate_instance_in_auto_scaling_group B instance_id should_decrement =
     remote (TerminateInstanceInAutoScalingGroup instance_id should_decrement) (\<lambda>_. Ok)
       (terminate_instance_in_auto_scaling_group B instance_id should_decrement)"

definition ecs_list_container_instances :: "'w backend \<Rightarrow> string \<Rightarrow> (string list, 'w) act" where
  "ecs_list_container_instances B cluster =
     remote (ListContainerInstances cluster) Arns (list_container_instances B cluster)"

definition ecs_update_container_instances_state ::
  "'w backend \<Rightarrow> string \<Rightarrow> string list \<Rightarrow> string \<Rightarrow> (unit, 'w) act" where
  "ecs_update_container_instances_state B cluster arns status =
     remote (UpdateContainerInstancesState cluster arns status) (\<lambda>_. Ok)
       (update_container_instances_state B cluster arns status)"

definition ecs_describe_container_instances ::
  "'w backend \<Rightarrow> string \<Rightarrow> string list \<Rightarrow> (container_instance list, 'w) act" where
  "ecs_describe_container_instances B cluster arns =
     remote (DescribeContainerInstances cluster arns) Instances
       (describe_container_instances B cluster arns)"

definition time_sleep :: "'w backend \<Rightarrow> int \<Rightarrow> (unit, 'w) act" where
  "time_sleep B n w = (Returned (), [(Sleep n, Ok)], sleep B n w)"

section \<open>The script\<close>

text \<open>Module constants and the configuration read once from the command line.\<close>

definition SUSPEND_PROCESSES :: "string list" where
  "SUSPEND_PROCESSES = [''ReplaceUnhealthy'', ''AlarmNotification'', ''ScheduledActions'', ''AZRebalance'']"

definition POLL_INTERVAL :: int where
  "POLL_INTERVAL = 15"

record config =
  ASG_NAME :: string
  ECS_CLUSTER :: string
  AWS_REGION :: string

text \<open>\<open>get_asg\<close>: the first group of the description; \<open>[0]\<close> raises on an empty list.\<close>

definition get_asg :: "'w backend \<Rightarrow> string \<Rightarrow> (asg, 'w) act" where
  "get_asg B asg_name =
     seqr (autoscaling_describe_auto_scaling_groups B [asg_name])
       (\<lambda>groups. case groups of [] \<Rightarrow> raise IndexError | g # _ \<Rightarrow> ret g)"

text \<open>
  \<open>wait_for_ecs_count\<close>: the \<open>while True\<close> loop, one unit of fuel per poll. The poll
  compares the number of listed container instances with the wanted count.
\<close>

fun wait_for_ecs_count :: "nat \<Rightarrow> 'w backend \<Rightarrow> int \<Rightarrow> string \<Rightarrow> int \<Rightarrow> (unit, 'w) act" where
  "wait_for_ecs_count 0 B wanted_count ecs_cluster poll_interval = (\<lambda>w. (OutOfFuel, [], w))"
| "wait_for_ecs_count (Suc fuel) B wanted_count ecs_cluster poll_interval =
     seqr (ecs_list_container_instances B ecs_cluster)
       (\<lambda>container_instances.
          if int (length container_instances) \<ge> wanted_count then ret ()
          else seqr (time_sleep B poll_interval)
                 (\<lambda>_. wait_for_ecs_count fuel B wanted_count ecs_cluster poll_interval))"

text \<open>\<open>cleanup\<close>: resume the paused processes, then reset max size and desired capacity.\<close>

definition cleanup :: "'w backend \<Rightarrow> string \<Rightarrow> int \<Rightarrow> int \<Rightarrow> (unit, 'w) act" where
  "cleanup B asg_name desired_capacity max_size =
     seqr (autoscaling_resume_processes B asg_name SUSPEND_PROCESSES)
       (\<lambda>_. autoscaling_update_auto_scaling_group B asg_name max_size desired_capacity)"

text \<open>
  The inner \<open>while True\<close> loop of \<open>handler\<close> (lines 121 to 130): describe the container
  instance, take element \<open>[0]\<close>, leave the loop when its \<open>runningTasksCount\<close> is 0, else
  sleep and poll again. The loop leaves \<open>container_instance\<close> bound to the last
  description, which the model returns.
\<close>

fun await_drained :: "nat \<Rightarrow> 'w backend \<Rightarrow> string \<Rightarrow> string \<Rightarrow> (container_instance, 'w) act" where
  "await_drained 0 B cluster container_instance_arn = (\<lambda>w. (OutOfFuel, [], w))"
| "await_drained (Suc fuel) B cluster container_instance_arn =
     seqr (ecs_describe_container_instances B cluster [container_instance_arn])
       (\<lambda>described.
          case described of
            [] \<Rightarrow> raise IndexError
          | container_instance # _ \<Rightarrow>
              if runningTasksCount container_instance = 0 then ret container_instance
              else seqr (time_sleep B POLL_INTERVAL)
                     (\<lambda>_. await_drained fuel B cluster container_instance_arn))"

text \<open>
  The \<open>for\<close> loop of \<open>handler\<close> (lines 102 to 145) over the container instances listed
  before the scale-up; \<open>i\<close> is the counter before its increment at the top of the body.
  The \<open>break\<close> ends the loop without looking at the remaining instances.
\<close>

fun recycle :: "nat \<Rightarrow> 'w backend \<Rightarrow> config \<Rightarrow> int \<Rightarrow> int \<Rightarrow> int \<Rightarrow> string list \<Rightarrow> (unit, 'w) act" where
  "recycle fuel B cfg pre_desired_capacity new_desired_capacity i [] = ret ()"
| "recycle fuel B cfg pre_desired_capacity new_desired_capacity i (container_instance_arn # rest) =
     seqr (wait_for_ecs_count fuel B new_desired_capacity (ECS_CLUSTER cfg) POLL_INTERVAL) (\<lambda>_.
     seqr (time_sleep B POLL_INTERVAL) (\<lambda>_.
     seqr (ecs_update_container_instances_state B (ECS_CLUSTER cfg) [container_instance_arn] ''DRAINING'') (\<lambda>_.
     seqr (await_drained fuel B (ECS_CLUSTER cfg) container_instance_arn) (\<lambda>container_instance.
     seqr (time_sleep B POLL_INTERVAL) (\<lambda>_.
     if i + 1 \<ge> pre_desired_capacity then ret ()
     else
       seqr (autoscaling_terminate_instance_in_auto_scaling_group B
               (ec2InstanceId container_instance) False) (\<lambda>_.
       seqr (time_sleep B POLL_INTERVAL) (\<lambda>_.
       recycle fuel B cfg pre_desired_capacity new_desired_capacity (i + 1) rest)))))))"

text \<open>The two capacity computations of \<open>handler\<close> (lines 84 to 92).\<close>

definition new_desired_capacity_of :: "int \<Rightarrow> int" where
  "new_desired_capacity_of pre_desired_capacity = pre_desired_capacity + 1"

definition new_max_size_of :: "int \<Rightarrow> int \<Rightarrow> int" where
  "new_max_size_of pre_desired_capacity pre_max_size =
     (if new_desired_capacity_of pre_desired_capacity > pre_max_size
      then new_desired_capacity_of pre_desired_capacity else pre_max_size)"

text \<open>
  \<open>handler(event, context)\<close>: the Lambda entry point. The group name and the cluster
  name are the module-level configuration; the two parameters are never read.
\<close>

definition handler :: "nat \<Rightarrow> 'w backend \<Rightarrow> config \<Rightarrow> 'e \<Rightarrow> 'c \<Rightarrow> (unit, 'w) act" where
  "handler fuel B cfg event context =
     seqr (autoscaling_suspend_processes B (ASG_NAME cfg) SUSPEND_PROCESSES) (\<lambda>_.
     seqr (get_asg B (ASG_NAME cfg)) (\<lambda>asg.
     seqr (ecs_list_container_instances B (ECS_CLUSTER cfg)) (\<lambda>pre_container_instance_arns.
     seqr (autoscaling_update_auto_scaling_group B (ASG_NAME cfg)
             (new_max_size_of (DesiredCapacity asg) (MaxSize asg))
             (new_desired_capacity_of (DesiredCapacity asg))) (\<lambda>_.
     seqr (recycle fuel B cfg (DesiredCapacity asg) (new_desired_capacity_of (DesiredCapacity asg))
             0 pre_container_instance_arns) (\<lambda>_.
     cleanup B (ASG_NAME cfg) (DesiredCapacity asg) (MaxSize asg))))))"

section \<open>Reading a trace\<close>

text \<open>Kinds of calls.\<close>

definition is_terminate :: "entry \<Rightarrow> bool" where
  "is_terminate e = (case fst e of TerminateInstanceInAutoScalingGroup _ _ \<Rightarrow> True | _ \<Rightarrow> False)"

definition is_drain :: "entry \<Rightarrow> bool" where
  "is_drain e = (case fst e of UpdateContainerInstancesState _ _ _ \<Rightarrow> True | _ \<Rightarrow> False)"

definition is_resume :: "entry \<Rightarrow> bool" where
  "is_resume e = (case fst e of ResumeProcesses _ _ \<Rightarrow> True | _ \<Rightarrow> False)"

definition is_update :: "entry \<Rightarrow> bool" where
  "is_update e = (case fst e of UpdateAutoScalingGroup _ _ _ \<Rightarrow> True | _ \<Rightarrow> False)"

definition decrements :: "entry \<Rightarrow> bool" where
  "decrements e =
     (case fst e of TerminateInstanceInAutoScalingGroup instance_id dec \<Rightarrow> dec | _ \<Rightarrow> False)"

definition is_group_call :: "call \<Rightarrow> bool" where
  "is_group_call c =
     (case c of SuspendProcesses _ _ \<Rightarrow> True | ResumeProcesses _ _ \<Rightarrow> True
      | UpdateAutoScalingGroup _ _ _ \<Rightarrow> True | _ \<Rightarrow> False)"

text \<open>The calls that change the group: suspend, resume and capacity update, in order.\<close>

definition group_calls :: "entry list \<Rightarrow> call list" where
  "group_calls t = filter is_group_call (map fst t)"

text \<open>
  A capacity update is well formed when the desired capacity does not exceed the max
  size (the remote service refuses it otherwise).
\<close>

definition update_ok :: "entry \<Rightarrow> bool" where
  "update_ok e =
     (case fst e of UpdateAutoScalingGroup name max_size desired \<Rightarrow> desired \<le> max_size
      | _ \<Rightarrow> True)"

text \<open>
  What the run has read: the group described first (element \<open>[0]\<close> of the first
  non-empty group description) and the first container instance listing.
\<close>

fun described_group :: "entry list \<Rightarrow> asg option" where
  "described_group [] = None"
| "described_group ((DescribeAutoScalingGroups names, Asgs (g # gs)) # t) = Some g"
| "described_group (e # t) = described_group t"

fun snapshot :: "entry list \<Rightarrow> string list" where
  "snapshot [] = []"
| "snapshot ((ListContainerInstances c, Arns xs) # t) = xs"
| "snapshot (e # t) = snapshot t"

text \<open>The numbers of container instances the listings returned, in order.\<close>

fun listing_counts :: "entry list \<Rightarrow> int list" where
  "listing_counts [] = []"
| "listing_counts ((ListContainerInstances c, Arns xs) # t) = int (length xs) # listing_counts t"
| "listing_counts (e # t) = listing_counts t"

text \<open>
  The counts observed from the first capacity update (the scale-up) up to the resume
  call that starts the cleanup.
\<close>

definition counts_while_scaled_up :: "entry list \<Rightarrow> int list" where
  "counts_while_scaled_up t =
     listing_counts (takeWhile (\<lambda>e. \<not> is_resume e) (dropWhile (\<lambda>e. \<not> is_update e) t))"

text \<open>
  For each call that sets an instance state: the instances it names, and the container
  instances of the listing the run had last received when it made the call.
\<close>

fun listing_at_drains :: "string list \<Rightarrow> entry list \<Rightarrow> (string list \<times> string list) list" where
  "listing_at_drains l [] = []"
| "listing_at_drains l ((ListContainerInstances c, Arns xs) # t) = listing_at_drains xs t"
| "listing_at_drains l ((UpdateContainerInstancesState c arns st, r) # t) =
     (arns, l) # listing_at_drains l t"
| "listing_at_drains l (e # t) = listing_at_drains l t"

text \<open>
  The task counts the drain wait has seen: \<open>runningTasksCount\<close> of element \<open>[0]\<close> of
  each container instance description, in order.
\<close>

fun task_polls :: "entry list \<Rightarrow> int list" where
  "task_polls [] = []"
| "task_polls ((DescribeContainerInstances c a, Instances (ci # cis)) # t) =
     runningTasksCount ci # task_polls t"
| "task_polls (e # t) = task_polls t"

text \<open>The container instances whose state the run has set, in order.\<close>

definition drained :: "entry list \<Rightarrow> string list" where
  "drained t =
     concat (map (\<lambda>e. case fst e of UpdateContainerInstancesState c arns st \<Rightarrow> arns | _ \<Rightarrow> []) t)"

text \<open>
  The steps of the recycling that matter for an instance: its state is set, a
  description shows it with no running task, an instance is terminated.
\<close>

datatype mark = SetState "string list" string | Empty string | Terminate string bool

fun marks :: "entry list \<Rightarrow> mark list" where
  "marks [] = []"
| "marks ((UpdateContainerInstancesState c arns st, r) # t) = SetState arns st # marks t"
| "marks ((DescribeContainerInstances c a, Instances (ci # cis)) # t) =
     (if runningTasksCount ci = 0 then Empty (ec2InstanceId ci) # marks t else marks t)"
| "marks ((TerminateInstanceInAutoScalingGroup instance_id dec, r) # t) =
     Terminate instance_id dec # marks t"
| "marks (e # t) = marks t"


text \<open>
  The guard on draining, as an automaton over the trace: \<open>Polled\<close> right after a listing
  with at least \<open>wanted\<close> container instances, \<open>Armed\<close> after one sleep that follows it,
  \<open>Idle\<close> otherwise. \<open>drains_guarded\<close> holds when every call that sets an instance state
  is made in state \<open>Armed\<close>.
\<close>

datatype guard = Idle | Polled | Armed

definition guard_step :: "int \<Rightarrow> guard \<Rightarrow> entry \<Rightarrow> guard" where
  "guard_step wanted g e =
     (case e of
        (ListContainerInstances c, Arns xs) \<Rightarrow> if wanted \<le> int (length xs) then Polled else Idle
      | (Sleep n, r) \<Rightarrow> if g = Polled then Armed else Idle
      | _ \<Rightarrow> Idle)"

fun drains_guarded :: "int \<Rightarrow> guard \<Rightarrow> entry list \<Rightarrow> bool" where
  "drains_guarded wanted g [] = True"
| "drains_guarded wanted g (e # t) =
     ((if is_drain e then g = Armed else True) \<and> drains_guarded wanted (guard_step wanted g e) t)"

text \<open>The cleanup has run to its end: the last two entries are its two calls, both accepted.\<close>

definition cleanup_done :: "config \<Rightarrow> entry list \<Rightarrow> bool" where
  "cleanup_done cfg t =
     (case described_group t of
        None \<Rightarrow> False
      | Some g \<Rightarrow>
          2 \<le> length t \<and>
          drop (length t - 2) t =
            [(ResumeProcesses (ASG_NAME cfg) SUSPEND_PROCESSES, Ok),
             (UpdateAutoScalingGroup (ASG_NAME cfg) (MaxSize g) (DesiredCapacity g), Ok)])"

text \<open>
  The calls each part of the script can make: the capacity wait, the drain wait, the
  body of the loop; and the first four entries of a run that reached the loop.
\<close>

definition poll_call :: "string \<Rightarrow> int \<Rightarrow> entry \<Rightarrow> bool" where
  "poll_call cluster n e = (fst e = ListContainerInstances cluster \<or> fst e = Sleep n)"

definition probe_call :: "string \<Rightarrow> string \<Rightarrow> entry \<Rightarrow> bool" where
  "probe_call cluster arn e =
     (fst e = DescribeContainerInstances cluster [arn] \<or> fst e = Sleep POLL_INTERVAL)"

definition loop_call :: "config \<Rightarrow> entry \<Rightarrow> bool" where
  "loop_call cfg e =
     (case fst e of
        ListContainerInstances c \<Rightarrow> c = ECS_CLUSTER cfg
      | Sleep n \<Rightarrow> n = POLL_INTERVAL
      | DescribeContainerInstances c arns \<Rightarrow> c = ECS_CLUSTER cfg
      | UpdateContainerInstancesState c arns st \<Rightarrow> c = ECS_CLUSTER cfg \<and> st = ''DRAINING''
      | TerminateInstanceInAutoScalingGroup instance_id dec \<Rightarrow> \<not> dec
      | _ \<Rightarrow> False)"

definition started :: "config \<Rightarrow> asg \<Rightarrow> asg list \<Rightarrow> string list \<Rightarrow> entry list" where
  "started cfg g gs arns =
     [(SuspendProcesses (ASG_NAME cfg) SUSPEND_PROCESSES, Ok),
      (DescribeAutoScalingGroups [ASG_NAME cfg], Asgs (g # gs)),
      (ListContainerInstances (ECS_CLUSTER cfg), Arns arns),
      (UpdateAutoScalingGroup (ASG_NAME cfg)
         (new_max_size_of (DesiredCapacity g) (MaxSize g))
         (new_desired_capacity_of (DesiredCapacity g)), Ok)]"

text \<open>
  An entry whose operands are those of the configuration and of the module constants:
  the group name, the cluster name, the list of processes, the poll interval, the
  \<open>DRAINING\<close> status and \<open>ShouldDecrementDesiredCapacity=False\<close>.
\<close>

definition configured :: "config \<Rightarrow> entry \<Rightarrow> bool" where
  "configured cfg e =
     (case fst e of
        SuspendProcesses name procs \<Rightarrow> name = ASG_NAME cfg \<and> procs = SUSPEND_PROCESSES
      | ResumeProcesses name procs \<Rightarrow> name = ASG_NAME cfg \<and> procs = SUSPEND_PROCESSES
      | DescribeAutoScalingGroups names \<Rightarrow> names = [ASG_NAME cfg]
      | UpdateAutoScalingGroup name max_size desired \<Rightarrow> name = ASG_NAME cfg
      | TerminateInstanceInAutoScalingGroup instance_id dec \<Rightarrow> \<not> dec
      | ListContainerInstances c \<Rightarrow> c = ECS_CLUSTER cfg
      | UpdateContainerInstancesState c arns st \<Rightarrow> c = ECS_CLUSTER cfg \<and> st = ''DRAINING''
      | DescribeContainerInstances c arns \<Rightarrow> c = ECS_CLUSTER cfg
      | Sleep n \<Rightarrow> n = POLL_INTERVAL)"

text \<open>
  The trace of a drain wait for the container instance \<open>arn\<close> that ended with the result
  \<open>r\<close>. Every poll is a description of \<open>[arn]\<close> in the cluster. A poll that is not the
  last one shows a first element with a nonzero \<open>runningTasksCount\<close> and is followed by
  exactly one sleep of \<open>POLL_INTERVAL\<close> and the next poll. The wait returns only at a last
  poll whose first element has count 0, and returns that element; it raises only the
  error of a description that failed, or \<open>IndexError\<close> on an empty description; a wait
  whose polls are all followed by a sleep has not ended.
\<close>

fun waited :: "string \<Rightarrow> string \<Rightarrow> container_instance result \<Rightarrow> entry list \<Rightarrow> bool" where
  "waited cluster arn r [] = (r = OutOfFuel)"
| "waited cluster arn r [e] =
     (fst e = DescribeContainerInstances cluster [arn] \<and>
      (case snd e of
         Failed err \<Rightarrow> r = Raised err
       | Instances [] \<Rightarrow> r = Raised IndexError
       | Instances (ci # cis) \<Rightarrow> runningTasksCount ci = 0 \<and> r = Returned ci
       | _ \<Rightarrow> False))"
| "waited cluster arn r (e # s # t) =
     (fst e = DescribeContainerInstances cluster [arn] \<and>
      (case snd e of Instances (ci # cis) \<Rightarrow> runningTasksCount ci \<noteq> 0 | _ \<Rightarrow> False) \<and>
      s = (Sleep POLL_INTERVAL, Ok) \<and>
      waited cluster arn r t)"

text \<open>
  The entries of a trace that act on a container instance or describe one: setting its
  state, describing it, terminating an instance.
\<close>

definition is_step :: "entry \<Rightarrow> bool" where
  "is_step e =
     (case fst e of
        UpdateContainerInstancesState c arns st \<Rightarrow> True
      | DescribeContainerInstances c arns \<Rightarrow> True
      | TerminateInstanceInAutoScalingGroup instance_id dec \<Rightarrow> True
      | _ \<Rightarrow> False)"

text \<open>A description of \<open>[arn]\<close> whose first element still has running tasks.\<close>

definition still_busy :: "string \<Rightarrow> string \<Rightarrow> entry \<Rightarrow> bool" where
  "still_busy cluster arn e =
     (case e of
        (DescribeContainerInstances c arns, Instances (ci # cis)) \<Rightarrow>
          c = cluster \<and> arns = [arn] \<and> runningTasksCount ci \<noteq> 0
      | _ \<Rightarrow> False)"

text \<open>
  \<open>rounds cluster k arns ss\<close>: the steps \<open>ss\<close> are those of a loop that went through the
  listed instances \<open>arns\<close> in order and ended normally. For each of the first \<open>k\<close>
  instances: the state of exactly that instance is set to \<open>DRAINING\<close> and the call is
  accepted; then come descriptions of that same instance with running tasks; then a
  description of that same instance whose first element \<open>ci\<close> has no running task; then
  one accepted terminate call, for \<open>ec2InstanceId ci\<close> and with
  \<open>ShouldDecrementDesiredCapacity=False\<close>. For the next instance, if there is one, the
  same without the terminate call, and no step after it. No step concerns the instances
  listed after that one.
\<close>

fun rounds :: "string \<Rightarrow> nat \<Rightarrow> string list \<Rightarrow> entry list \<Rightarrow> bool" where
  "rounds cluster k [] ss = (ss = [])"
| "rounds cluster k (arn # rest) [] = False"
| "rounds cluster k (arn # rest) (e # ss1) =
     (e = (UpdateContainerInstancesState cluster [arn] ''DRAINING'', Ok) \<and>
      (case dropWhile (still_busy cluster arn) ss1 of
         [] \<Rightarrow> False
       | p # ss2 \<Rightarrow>
           fst p = DescribeContainerInstances cluster [arn] \<and>
           (case snd p of
              Instances (ci # cis) \<Rightarrow>
                runningTasksCount ci = 0 \<and>
                (case k of
                   0 \<Rightarrow> ss2 = []
                 | Suc k' \<Rightarrow>
                     (case ss2 of
                        [] \<Rightarrow> False
                      | q # ss3 \<Rightarrow>
                          q = (TerminateInstanceInAutoScalingGroup (ec2InstanceId ci) False, Ok) \<and>
                          rounds cluster k' rest ss3))
            | _ \<Rightarrow> False)))"

section \<open>Replaying a trace on the remote services\<close>

text \<open>
  What a recorded call does when it is sent to the remote services: the operation of the
  backend it stands for, applied to the world, with the reply as the trace records it.
\<close>

definition answer :: "('a \<Rightarrow> reply) \<Rightarrow> (error + 'a) \<times> 'w \<Rightarrow> reply \<times> 'w" where
  "answer rep x = (case x of (Inl e, w') \<Rightarrow> (Failed e, w') | (Inr a, w') \<Rightarrow> (rep a, w'))"

fun perform :: "'w backend \<Rightarrow> call \<Rightarrow> 'w \<Rightarrow> reply \<times> 'w" where
  "perform B (SuspendProcesses name procs) w =
     answer (\<lambda>_. Ok) (suspend_processes B name procs w)"
| "perform B (ResumeProcesses name procs) w =
     answer (\<lambda>_. Ok) (resume_processes B name procs w)"
| "perform B (DescribeAutoScalingGroups names) w =
     answer Asgs (describe_auto_scaling_groups B names w)"
| "perform B (UpdateAutoScalingGroup name max_size desired) w =
     answer (\<lambda>_. Ok) (update_auto_scaling_group B name max_size desired w)"
| "perform B (TerminateInstanceInAutoScalingGroup instance_id dec) w =
     answer (\<lambda>_. Ok) (terminate_instance_in_auto_scaling_group B instance_id dec w)"
| "perform B (ListContainerInstances c) w =
     answer Arns (list_container_instances B c w)"
| "perform B (UpdateContainerInstancesState c arns st) w =
     answer (\<lambda>_. Ok) (update_container_instances_state B c arns st w)"
| "perform B (DescribeContainerInstances c arns) w =
     answer Instances (describe_container_instances B c arns w)"
| "perform B (Sleep n) w = (Ok, sleep B n w)"

text \<open>
  \<open>replay B t w = Some w'\<close>: sending the calls of the trace \<open>t\<close> to the backend, one after
  the other from the world \<open>w\<close>, gives exactly the replies the trace records and ends in
  the world \<open>w'\<close>. A trace with a call that was not sent, or with a reply that was not
  received, does not replay to the final world of the run.
\<close>

fun replay :: "'w backend \<Rightarrow> entry list \<Rightarrow> 'w \<Rightarrow> 'w option" where
  "replay B [] w = Some w"
| "replay B (e # t) w =
     (case perform B (fst e) w of
        (rep, w1) \<Rightarrow> if rep = snd e then replay B t w1 else None)"

text \<open>
  A statement of the script is faithful to the backend when the trace of each of its
  runs replays to the final world of the run: it records the calls it sends, with the
  replies it gets, and nothing else.
\<close>

definition faithful :: "'w backend \<Rightarrow> ('a, 'w) act \<Rightarrow> bool" where
  "faithful B m = (\<forall>w r t w'. m w = (r, t, w') \<longrightarrow> replay B t w = Some w')"

section \<open>A scripted backend for concrete runs\<close>

text \<open>
  A test double. The group description, the successive container instance listings (the
  last one repeats) and the successive task counts are scripted; once the task counts
  are used up a description shows 0 running tasks, or fails when an error is scripted
  for it; setting the instance state fails when an error is scripted for it.

  The world keeps what the calls did: a capacity update is stored in the group (and
  refused when there is no group), the suspended processes are added by a suspension
  and removed by a resumption, the container instances set to draining and the
  instances terminated are appended in order, and the seconds slept are added up.
\<close>

record script =
  groups :: "asg list"
  listings :: "string list list"
  task_counts :: "int list"
  drain_error :: "error option"
  describe_error :: "error option"
  suspended :: "string list"
  draining :: "string list"
  terminated :: "string list"
  slept :: int

definition scripted :: "script backend" where
  "scripted = \<lparr>
     suspend_processes = (\<lambda>name procs w. (Inr (), w\<lparr>suspended := procs @ suspended w\<rparr>)),
     resume_processes = (\<lambda>name procs w.
        (Inr (), w\<lparr>suspended := filter (\<lambda>p. p \<notin> set procs) (suspended w)\<rparr>)),
     describe_auto_scaling_groups = (\<lambda>names w. (Inr (groups w), w)),
     update_auto_scaling_group = (\<lambda>name m d w.
        case groups w of
          [] \<Rightarrow> (Inl (ClientError ''ValidationError''), w)
        | g # gs \<Rightarrow>
            (Inr (), w\<lparr>groups := map (\<lambda>g. \<lparr>DesiredCapacity = d, MaxSize = m\<rparr>) (groups w)\<rparr>)),
     terminate_instance_in_auto_scaling_group = (\<lambda>instance_id dec w.
        (Inr (), w\<lparr>terminated := terminated w @ [instance_id]\<rparr>)),
     list_container_instances = (\<lambda>cluster w.
        case listings w of
          [] \<Rightarrow> (Inr [], w)
        | [l] \<Rightarrow> (Inr l, w)
        | l # ls \<Rightarrow> (Inr l, w\<lparr>listings := ls\<rparr>)),
     update_container_instances_state = (\<lambda>cluster arns status w.
        case drain_error w of
          Some e \<Rightarrow> (Inl e, w)
        | None \<Rightarrow> (Inr (), w\<lparr>draining := draining w @ arns\<rparr>)),
     describe_container_instances = (\<lambda>cluster arns w.
        case task_counts w of
          [] \<Rightarrow>
            (case describe_error w of
               Some e \<Rightarrow> (Inl e, w)
             | None \<Rightarrow>
                 (Inr (map (\<lambda>a. \<lparr>runningTasksCount = 0, ec2InstanceId = ''i-'' @ a\<rparr>) arns), w))
        | n # ns \<Rightarrow> (Inr (map (\<lambda>a. \<lparr>runningTasksCount = n, ec2InstanceId = ''i-'' @ a\<rparr>) arns),
                     w\<lparr>task_counts := ns\<rparr>)),
     sleep = (\<lambda>n w. w\<lparr>slept := slept w + n\<rparr>) \<rparr>"

text \<open>What the scripted world shows of the group: its settings and its suspended processes.\<close>

definition settings :: "script \<Rightarrow> asg" where
  "settings w = hd (groups w)"

definition suspended_processes :: "script \<Rightarrow> string set" where
  "suspended_processes w = set (suspended w)"

definition cfg0 :: config where
  "cfg0 = \<lparr>ASG_NAME = ''asg'', ECS_CLUSTER = ''ecs'', AWS_REGION = ''eu-west-1''\<rparr>"

text \<open>A world where nothing has been done yet.\<close>

definition fresh :: "asg list \<Rightarrow> string list list \<Rightarrow> int list \<Rightarrow> error option \<Rightarrow> script" where
  "fresh gs ls ns e =
     \<lparr>groups = gs, listings = ls, task_counts = ns, drain_error = e, describe_error = None,
      suspended = [], draining = [], terminated = [], slept = 0\<rparr>"

text \<open>
  The scenario of the specification: desired 3, max 3, instances A, B, C; a fourth
  instance joins at the second poll; the first instance reports 5, 2, 0 running tasks.
\<close>

definition three_nodes :: script where
  "three_nodes =
     fresh [\<lparr>DesiredCapacity = 3, MaxSize = 3\<rparr>]
       [[''A'', ''B'', ''C''], [''A'', ''B'', ''C''], [''A'', ''B'', ''C'', ''D'']]
       [5, 2, 0] None"

text \<open>
  Desired 3, instances A, B, C; the spare D joins. After A is terminated the listing
  still shows A (the listing is eventually consistent), so the capacity wait of the
  second round is satisfied at once; the listing of the third round shows C and D only,
  the next one C, D and the two replacements E, F.
\<close>

definition stale_listing :: script where
  "stale_listing =
     fresh [\<lparr>DesiredCapacity = 3, MaxSize = 3\<rparr>]
       [[''A'', ''B'', ''C''], [''A'', ''B'', ''C'', ''D''], [''A'', ''B'', ''C'', ''D''],
        [''C'', ''D''], [''C'', ''D'', ''E'', ''F'']]
       [] None"

text \<open>Desired 2 while the cluster lists three container instances A, B, C.\<close>

definition extra_node :: script where
  "extra_node = fresh [\<lparr>DesiredCapacity = 2, MaxSize = 5\<rparr>] [[''A'', ''B'', ''C'']] [] None"

text \<open>The scenario of the specification, where setting an instance state is throttled.\<close>

definition drain_fails :: script where
  "drain_fails =
     fresh [\<lparr>DesiredCapacity = 3, MaxSize = 3\<rparr>]
       [[''A'', ''B'', ''C''], [''A'', ''B'', ''C'', ''D'']]
       [] (Some (ClientError ''ThrottlingException''))"

text \<open>A cluster of four idle container instances.\<close>

definition four_listed :: script where
  "four_listed = fresh [\<lparr>DesiredCapacity = 4, MaxSize = 4\<rparr>] [[''A'', ''B'', ''C'', ''D'']] [] None"

text \<open>
  Desired 0 while the cluster lists one container instance A, which reports 3, then 0
  running tasks.
\<close>

definition zero_desired :: script where
  "zero_desired = fresh [\<lparr>DesiredCapacity = 0, MaxSize = 2\<rparr>] [[''A'']] [3, 0] None"

text \<open>
  Desired 3 while the first listing shows two container instances A, B only; the later
  listings show four.
\<close>

definition short_snapshot :: script where
  "short_snapshot =
     fresh [\<lparr>DesiredCapacity = 3, MaxSize = 3\<rparr>]
       [[''A'', ''B''], [''A'', ''B'', ''C'', ''D'']] [] None"

text \<open>A container instance that reports 5, then 2 running tasks; the next description fails.\<close>

definition description_fails :: script where
  "description_fails =
     (fresh [] [] [5, 2] None)\<lparr>describe_error := Some (ClientError ''ThrottlingException'')\<rparr>"

section \<open>Basic facts about sequencing and remote calls\<close>

lemmas run_defs =
  handler_def seqr_def remote_def scripted_def cfg0_def ret_def raise_def
  get_asg_def cleanup_def time_sleep_def autoscaling_suspend_processes_def
  autoscaling_resume_processes_def autoscaling_describe_auto_scaling_groups_def
  autoscaling_update_auto_scaling_group_def
  autoscaling_terminate_instance_in_auto_scaling_group_def
  ecs_list_container_instances_def ecs_update_container_instances_state_def
  ecs_describe_container_instances_def new_desired_capacity_of_def new_max_size_of_def
  POLL_INTERVAL_def SUSPEND_PROCESSES_def outcome_def trace_def world_def

lemmas world_defs =
  fresh_def three_nodes_def stale_listing_def extra_node_def drain_fails_def four_listed_def
  zero_desired_def short_snapshot_def description_fails_def

lemma seqrE:
  assumes "seqr m f w = (r, t, w')"
  obtains (ret) a t1 w1 t2 where "m w = (Returned a, t1, w1)" "f a w1 = (r, t2, w')" "t = t1 @ t2"
  | (raised) e where "m w = (Raised e, t, w')" "r = Raised e"
  | (fuel) "m w = (OutOfFuel, t, w')" "r = OutOfFuel"
  using assms by (auto simp: seqr_def split: prod.splits result.splits)

lemma remoteE:
  assumes "remote c rep op w = (r, t, w')"
  obtains (ok) a where "r = Returned a" "t = [(c, rep a)]" "op w = (Inr a, w')"
  | (failed) e where "r = Raised e" "t = [(c, Failed e)]" "op w = (Inl e, w')"
  using assms by (auto simp: remote_def split: prod.splits sum.splits)

lemma seqr_sleepE:
  assumes "seqr (time_sleep B n) f w = (r, t, w')"
  obtains t' where "f () (sleep B n w) = (r, t', w')" "t = (Sleep n, Ok) # t'"
  using assms by (auto simp: seqr_def time_sleep_def split: prod.splits)

lemma seqr_remoteE:
  assumes "seqr (remote c rep op) f w = (r, t, w')"
  obtains (ok) a w1 t' where "op w = (Inr a, w1)" "f a w1 = (r, t', w')" "t = (c, rep a) # t'"
  | (failed) e where "op w = (Inl e, w')" "r = Raised e" "t = [(c, Failed e)]"
  using assms by (auto simp: seqr_def remote_def split: prod.splits sum.splits)

text \<open>
  Sequencing keeps a result that is reached without running out of fuel when both parts
  keep theirs.
\<close>

lemma seqr_more:
  assumes "seqr m f w = (r, t, w')" and "r \<noteq> OutOfFuel"
    and "\<And>ra ta wa. m w = (ra, ta, wa) \<Longrightarrow> ra \<noteq> OutOfFuel \<Longrightarrow> m' w = (ra, ta, wa)"
    and "\<And>a w1 rb tb wb. f a w1 = (rb, tb, wb) \<Longrightarrow> rb \<noteq> OutOfFuel \<Longrightarrow> f' a w1 = (rb, tb, wb)"
  shows "seqr m' f' w = (r, t, w')"
  using assms(1)
proof (cases rule: seqrE)
  case (ret a t1 w1 t2)
  from assms(3)[OF ret(1)] have "m' w = (Returned a, t1, w1)" by simp
  moreover from assms(4)[OF ret(2) assms(2)] have "f' a w1 = (r, t2, w')" .
  ultimately show ?thesis using ret(3) by (simp add: seqr_def)
next
  case (raised e)
  from assms(3)[OF raised(1)] have "m' w = (Raised e, t, w')" by simp
  with raised(2) show ?thesis by (simp add: seqr_def)
next
  case fuel
  with assms(2) show ?thesis by simp
qed

section \<open>The trace records the calls that were sent\<close>

text \<open>
  The parts a function of the script is made of are faithful: returning, raising,
  running out of fuel, a remote call whose recorded call stands for the operation it
  performs, and the sequencing of two faithful statements. The claims that speak of what
  reached the remote services derive from these, by unfolding the functions of the
  script, that the trace of a run replays to its final world.
\<close>

lemma replay_append:
  "replay B (t1 @ t2) w = (case replay B t1 w of None \<Rightarrow> None | Some w1 \<Rightarrow> replay B t2 w1)"
  by (induction t1 arbitrary: w) (auto split: prod.splits)

lemma faithfulD: "faithful B m \<Longrightarrow> m w = (r, t, w') \<Longrightarrow> replay B t w = Some w'"
  by (auto simp: faithful_def)

lemma faithful_ret: "faithful B (ret a)"
  by (simp add: faithful_def ret_def)

lemma faithful_raise: "faithful B (raise e)"
  by (simp add: faithful_def raise_def)

lemma faithful_out_of_fuel: "faithful B (\<lambda>w. (OutOfFuel, [], w))"
  by (simp add: faithful_def)

lemma faithful_seqr:
  assumes "faithful B m" and "\<And>a. faithful B (f a)"
  shows "faithful B (seqr m f)"
  unfolding faithful_def
proof (intro allI impI)
  fix w r t w'
  assume "seqr m f w = (r, t, w')"
  then show "replay B t w = Some w'"
  proof (cases rule: seqrE)
    case (ret a t1 w1 t2)
    from faithfulD[OF assms(1) ret(1)] faithfulD[OF assms(2) ret(2)] ret(3)
    show ?thesis by (simp add: replay_append)
  next
    case (raised e)
    from faithfulD[OF assms(1) raised(1)] show ?thesis .
  next
    case fuel
    from faithfulD[OF assms(1) fuel(1)] show ?thesis .
  qed
qed

lemma faithful_remote:
  assumes "\<And>w. perform B c w = answer rep (op w)"
  shows "faithful B (remote c rep op)"
  by (auto simp: faithful_def remote_def answer_def assms split: prod.splits sum.splits)

lemmas call_defs =
  autoscaling_suspend_processes_def autoscaling_resume_processes_def
  autoscaling_describe_auto_scaling_groups_def autoscaling_update_auto_scaling_group_def
  autoscaling_terminate_instance_in_auto_scaling_group_def
  ecs_list_container_instances_def ecs_update_container_instances_state_def
  ecs_describe_container_instances_def

lemma replay_cleanup:
  assumes "replay B (pre @ [(ResumeProcesses name procs, Ok),
                           (UpdateAutoScalingGroup name m d, Ok)]) w = Some w'"
  shows "\<exists>w5 w6. resume_processes B name procs w5 = (Inr (), w6) \<and>
                 update_auto_scaling_group B name m d w6 = (Inr (), w')"
  using assms
  by (auto simp: replay_append answer_def
      split: option.splits prod.splits sum.splits if_splits)

section \<open>Facts about the readers of a trace\<close>


lemma drained_append: "drained (t1 @ t2) = drained t1 @ drained t2"
  by (simp add: drained_def)

lemma drained_simps:
  "drained [] = []"
  "drained ((Sleep n, x) # t') = drained t'"
  "drained ((UpdateContainerInstancesState c a s, x) # t') = a @ drained t'"
  "drained ((TerminateInstanceInAutoScalingGroup y d, x) # t') = drained t'"
  by (simp_all add: drained_def)

lemma drains_guarded_append:
  "drains_guarded wanted g (t1 @ t2) =
     (drains_guarded wanted g t1 \<and> drains_guarded wanted (foldl (guard_step wanted) g t1) t2)"
  by (induction t1 arbitrary: g) auto

lemma group_calls_append: "group_calls (t1 @ t2) = group_calls t1 @ group_calls t2"
  by (simp add: group_calls_def)


lemma polls_drained: "list_all (poll_call cluster n) t \<Longrightarrow> drained t = []"
  by (induction t) (auto simp: poll_call_def drained_def)

lemma polls_no_terminate: "list_all (poll_call cluster n) t \<Longrightarrow> filter is_terminate t = []"
  by (induction t) (auto simp: poll_call_def is_terminate_def)

lemma polls_no_drain: "list_all (poll_call cluster n) t \<Longrightarrow> filter is_drain t = []"
  by (induction t) (auto simp: poll_call_def is_drain_def)

lemma polls_guarded: "list_all (poll_call cluster n) t \<Longrightarrow> drains_guarded wanted g t"
  by (induction t arbitrary: g) (auto simp: poll_call_def is_drain_def)

lemma polls_loop_call:
  "list_all (poll_call (ECS_CLUSTER cfg) POLL_INTERVAL) t \<Longrightarrow> list_all (loop_call cfg) t"
  by (induction t) (auto simp: poll_call_def loop_call_def)

lemma polls_steps: "list_all (poll_call cluster n) t \<Longrightarrow> filter is_step t = []"
  by (induction t) (auto simp: poll_call_def is_step_def)

lemma dropWhile_all: "list_all P xs \<Longrightarrow> dropWhile P (xs @ ys) = dropWhile P ys"
  by (induction xs) auto

lemma probes_drained: "list_all (probe_call cluster arn) t \<Longrightarrow> drained t = []"
  by (induction t) (auto simp: probe_call_def drained_def)

lemma probes_no_terminate: "list_all (probe_call cluster arn) t \<Longrightarrow> filter is_terminate t = []"
  by (induction t) (auto simp: probe_call_def is_terminate_def)

lemma probes_no_drain: "list_all (probe_call cluster arn) t \<Longrightarrow> filter is_drain t = []"
  by (induction t) (auto simp: probe_call_def is_drain_def)

lemma probes_guarded: "list_all (probe_call cluster arn) t \<Longrightarrow> drains_guarded wanted g t"
  by (induction t arbitrary: g) (auto simp: probe_call_def is_drain_def)

lemma probes_loop_call:
  "list_all (probe_call (ECS_CLUSTER cfg) arn) t \<Longrightarrow> list_all (loop_call cfg) t"
  by (induction t) (auto simp: probe_call_def loop_call_def)

lemma loop_calls_facts:
  assumes "list_all (loop_call cfg) xs"
  shows "filter is_update xs = []" "filter is_resume xs = []" "group_calls xs = []"
    "list_all update_ok xs"
  using assms
  by (induction xs;
      auto simp: loop_call_def is_update_def is_resume_def group_calls_def is_group_call_def
        update_ok_def split: call.splits)+


lemma loop_calls_configured: "list_all (loop_call cfg) xs \<Longrightarrow> list_all (configured cfg) xs"
  by (induction xs) (auto simp: loop_call_def configured_def split: call.splits)

lemma started_facts:
  "marks (started cfg g gs arns) = []"
  "drained (started cfg g gs arns) = []"
  "filter is_terminate (started cfg g gs arns) = []"
  "filter is_drain (started cfg g gs arns) = []"
  "described_group (started cfg g gs arns @ x) = Some g"
  "snapshot (started cfg g gs arns @ x) = arns"
  by (simp_all add: started_def drained_def is_terminate_def is_drain_def)

lemma started_more_facts:
  "filter is_resume (started cfg g gs arns) = []"
  "filter decrements (started cfg g gs arns) = []"
  "list_all update_ok (started cfg g gs arns) =
     (new_desired_capacity_of (DesiredCapacity g) \<le> new_max_size_of (DesiredCapacity g) (MaxSize g))"
  "map fst (filter is_update (started cfg g gs arns)) =
     [UpdateAutoScalingGroup (ASG_NAME cfg) (new_max_size_of (DesiredCapacity g) (MaxSize g))
        (new_desired_capacity_of (DesiredCapacity g))]"
  "group_calls (started cfg g gs arns) =
     [SuspendProcesses (ASG_NAME cfg) SUSPEND_PROCESSES,
      UpdateAutoScalingGroup (ASG_NAME cfg) (new_max_size_of (DesiredCapacity g) (MaxSize g))
        (new_desired_capacity_of (DesiredCapacity g))]"
  "drains_guarded nd Idle (started cfg g gs arns)"
  "length (started cfg g gs arns) = 4"
  by (simp_all add: started_def is_resume_def decrements_def update_ok_def is_update_def
      group_calls_def is_group_call_def is_drain_def)

lemma started_configured: "list_all (configured cfg) (started cfg g gs arns)"
  by (simp add: started_def configured_def)

lemma started_steps: "filter is_step (started cfg g gs arns) = []"
  by (simp add: started_def is_step_def)


lemma completed_cleanup_done:
  "cleanup_done cfg
     (started cfg g gs arns @ tr @
        [(ResumeProcesses (ASG_NAME cfg) SUSPEND_PROCESSES, Ok),
         (UpdateAutoScalingGroup (ASG_NAME cfg) (MaxSize g) (DesiredCapacity g), Ok)])"
proof -
  let ?c = "[(ResumeProcesses (ASG_NAME cfg) SUSPEND_PROCESSES, Ok),
         (UpdateAutoScalingGroup (ASG_NAME cfg) (MaxSize g) (DesiredCapacity g), Ok)]"
  have "drop (length ((started cfg g gs arns @ tr) @ ?c) - 2) ((started cfg g gs arns @ tr) @ ?c) = ?c"
    by simp
  then show ?thesis
    by (simp add: cleanup_done_def started_facts)
qed

section \<open>The two waits\<close>

lemma wait_for_ecs_count_calls:
  "wait_for_ecs_count fuel B wanted cluster poll w = (r, t, w') \<Longrightarrow>
     list_all (poll_call cluster poll) t"
proof (induction fuel arbitrary: w r t w')
  case 0
  then show ?case by auto
next
  case (Suc fuel)
  from Suc.prems[unfolded wait_for_ecs_count.simps ecs_list_container_instances_def]
  show ?case
  proof (cases rule: seqr_remoteE)
    case (ok xs w1 t')
    show ?thesis
    proof (cases "wanted \<le> int (length xs)")
      case True
      with ok show ?thesis by (auto simp: ret_def poll_call_def)
    next
      case False
      with ok have "seqr (time_sleep B poll)
          (\<lambda>_. wait_for_ecs_count fuel B wanted cluster poll) w1 = (r, t', w')" by simp
      then obtain t3 where
        rec: "wait_for_ecs_count fuel B wanted cluster poll (sleep B poll w1) = (r, t3, w')"
        and t2: "t' = (Sleep poll, Ok) # t3"
        by (rule seqr_sleepE)
      from Suc.IH[OF rec] t2 ok(3) show ?thesis by (simp add: poll_call_def)
    qed
  next
    case (failed e)
    then show ?thesis by (simp add: poll_call_def)
  qed
qed

text \<open>When the capacity wait returns, its last entry is a listing of at least the wanted count.\<close>

lemma wait_for_ecs_count_returned:
  "wait_for_ecs_count fuel B wanted cluster poll w = (Returned u, t, w') \<Longrightarrow>
     \<exists>t0 xs. t = t0 @ [(ListContainerInstances cluster, Arns xs)] \<and> wanted \<le> int (length xs)"
proof (induction fuel arbitrary: w t w')
  case 0
  then show ?case by auto
next
  case (Suc fuel)
  from Suc.prems[unfolded wait_for_ecs_count.simps
          ecs_list_container_instances_def]
  show ?case
  proof (cases rule: seqr_remoteE)
    case (ok xs w1 t')
    show ?thesis
    proof (cases "wanted \<le> int (length xs)")
      case True
      with ok show ?thesis by (auto simp: ret_def)
    next
      case False
      with ok have "seqr (time_sleep B poll)
          (\<lambda>_. wait_for_ecs_count fuel B wanted cluster poll) w1 = (Returned u, t', w')" by simp
      then obtain t3 where rec: "wait_for_ecs_count fuel B wanted cluster poll (sleep B poll w1) = (Returned u, t3, w')"
        and t2: "t' = (Sleep poll, Ok) # t3"
        by (rule seqr_sleepE)
      from Suc.IH[OF rec] obtain t0 ys where "t3 = t0 @ [(ListContainerInstances cluster, Arns ys)]"
        "wanted \<le> int (length ys)" by blast
      with t2 ok(3) show ?thesis
        by (intro exI[of _ "(ListContainerInstances cluster, Arns xs) # (Sleep poll, Ok) # t0"] exI[of _ ys]) simp
    qed
  next
    case (failed e)
    then show ?thesis by simp
  qed
qed

lemma await_drained_calls:
  "await_drained fuel B cluster arn w = (r, t, w') \<Longrightarrow>
     list_all (probe_call cluster arn) t \<and>
     marks t = (case r of Returned ci \<Rightarrow> [Empty (ec2InstanceId ci)] | _ \<Rightarrow> [])"
proof (induction fuel arbitrary: w r t w')
  case 0
  then show ?case by auto
next
  case (Suc fuel)
  from Suc.prems[unfolded await_drained.simps ecs_describe_container_instances_def]
  show ?case
  proof (cases rule: seqr_remoteE)
    case (ok described w1 t')
    show ?thesis
    proof (cases described)
      case Nil
      with ok show ?thesis by (auto simp: raise_def probe_call_def)
    next
      case (Cons ci cis)
      show ?thesis
      proof (cases "runningTasksCount ci = 0")
        case True
        with ok Cons show ?thesis by (auto simp: ret_def probe_call_def)
      next
        case False
        with ok Cons have "seqr (time_sleep B POLL_INTERVAL)
                     (\<lambda>_. await_drained fuel B cluster arn) w1 = (r, t', w')" by simp
        then obtain t3 where
          rec: "await_drained fuel B cluster arn (sleep B POLL_INTERVAL w1) = (r, t3, w')"
          and t2: "t' = (Sleep POLL_INTERVAL, Ok) # t3"
          by (rule seqr_sleepE)
        from Suc.IH[OF rec] t2 ok(3) Cons False show ?thesis by (simp add: probe_call_def)
      qed
    qed
  next
    case (failed e)
    then show ?thesis by (simp add: probe_call_def)
  qed
qed

lemma task_polls_append: "task_polls (t1 @ t2) = task_polls t1 @ task_polls t2"
  by (induction t1 rule: task_polls.induct) auto

lemma await_drained_polls:
  "await_drained fuel B cluster arn w = (r, t, w') \<Longrightarrow>
     (case r of
        Returned ci \<Rightarrow>
          runningTasksCount ci = 0 \<and>
          (\<exists>n ns. map fst t =
                concat (replicate n [DescribeContainerInstances cluster [arn], Sleep POLL_INTERVAL])
                @ [DescribeContainerInstances cluster [arn]] \<and>
              task_polls t = ns @ [0] \<and> length ns = n \<and> 0 \<notin> set ns)
      | OutOfFuel \<Rightarrow>
          map fst t =
            concat (replicate fuel [DescribeContainerInstances cluster [arn], Sleep POLL_INTERVAL]) \<and>
          length (task_polls t) = fuel \<and> 0 \<notin> set (task_polls t)
      | Raised e \<Rightarrow> 0 \<notin> set (task_polls t))"
proof (induction fuel arbitrary: w r t w')
  case 0
  then show ?case by auto
next
  case (Suc fuel)
  from Suc.prems show ?case
  proof (cases rule: seqrE[OF Suc.prems[unfolded await_drained.simps]])
    case (1 described t1 w1 t2)
    from 1(1) have t1: "t1 = [(DescribeContainerInstances cluster [arn], Instances described)]"
      by (auto simp: ecs_describe_container_instances_def elim: remoteE)
    show ?thesis
    proof (cases described)
      case Nil
      with 1 t1 show ?thesis by (auto simp: raise_def)
    next
      case (Cons ci cis)
      show ?thesis
      proof (cases "runningTasksCount ci = 0")
        case True
        with 1 t1 Cons show ?thesis
          by (auto simp: ret_def intro: exI[of _ 0])
      next
        case False
        with 1 Cons have "seqr (time_sleep B POLL_INTERVAL)
                     (\<lambda>_. await_drained fuel B cluster arn) w1 = (r, t2, w')" by simp
        then obtain w2 t3 where rec: "await_drained fuel B cluster arn w2 = (r, t3, w')"
          and t2: "t2 = (Sleep POLL_INTERVAL, Ok) # t3"
          by (auto simp: time_sleep_def elim!: seqrE)
        from Suc.IH[OF rec] show ?thesis
        proof (cases r)
          case (Returned ci')
          with Suc.IH[OF rec] obtain n ns where
            h: "runningTasksCount ci' = 0"
               "map fst t3 = concat (replicate n [DescribeContainerInstances cluster [arn], Sleep POLL_INTERVAL])
                @ [DescribeContainerInstances cluster [arn]]"
               "task_polls t3 = ns @ [0]" "length ns = n" "0 \<notin> set ns"
            by auto
          show ?thesis using Returned h 1(3) t1 t2 Cons False
            by (auto intro!: exI[of _ "Suc n"] exI[of _ "runningTasksCount ci # ns"])
        next
          case (Raised e)
          with Suc.IH[OF rec] 1(3) t1 t2 Cons False show ?thesis by auto
        next
          case OutOfFuel
          with Suc.IH[OF rec] 1(3) t1 t2 Cons False show ?thesis by auto
        qed
      qed
    qed
  next
    case (2 e)
    then show ?thesis
      by (auto simp: ecs_describe_container_instances_def elim!: remoteE)
  next
    case 3
    then show ?thesis
      by (auto simp: ecs_describe_container_instances_def elim!: remoteE)
  qed
qed

text \<open>The shape of the trace of a drain wait, and its steps when it returned.\<close>

lemma await_drained_waited:
  "await_drained fuel B cluster arn w = (r, t, w') \<Longrightarrow>
     waited cluster arn r t \<and> (r = OutOfFuel \<longrightarrow> length t = 2 * fuel)"
proof (induction fuel arbitrary: w r t w')
  case 0
  then show ?case by auto
next
  case (Suc fuel)
  from Suc.prems[unfolded await_drained.simps ecs_describe_container_instances_def]
  show ?case
  proof (cases rule: seqr_remoteE)
    case (ok described w1 t')
    show ?thesis
    proof (cases described)
      case Nil
      with ok show ?thesis by (auto simp: raise_def)
    next
      case (Cons ci cis)
      show ?thesis
      proof (cases "runningTasksCount ci = 0")
        case True
        with ok Cons show ?thesis by (auto simp: ret_def)
      next
        case False
        with ok Cons have "seqr (time_sleep B POLL_INTERVAL)
                     (\<lambda>_. await_drained fuel B cluster arn) w1 = (r, t', w')" by simp
        then obtain t3 where
          rec: "await_drained fuel B cluster arn (sleep B POLL_INTERVAL w1) = (r, t3, w')"
          and t2: "t' = (Sleep POLL_INTERVAL, Ok) # t3"
          by (rule seqr_sleepE)
        from Suc.IH[OF rec] t2 ok(3) Cons False show ?thesis by simp
      qed
    qed
  next
    case (failed e)
    then show ?thesis by simp
  qed
qed

lemma await_drained_steps:
  "await_drained fuel B cluster arn w = (Returned ci, t, w') \<Longrightarrow>
     runningTasksCount ci = 0 \<and>
     (\<exists>busy cis. filter is_step t =
         busy @ [(DescribeContainerInstances cluster [arn], Instances (ci # cis))] \<and>
         list_all (still_busy cluster arn) busy)"
proof (induction fuel arbitrary: w t w')
  case 0
  then show ?case by auto
next
  case (Suc fuel)
  from Suc.prems[unfolded await_drained.simps ecs_describe_container_instances_def]
  show ?case
  proof (cases rule: seqr_remoteE)
    case (ok described w1 t')
    show ?thesis
    proof (cases described)
      case Nil
      with ok show ?thesis by (auto simp: raise_def)
    next
      case (Cons ci' cis)
      show ?thesis
      proof (cases "runningTasksCount ci' = 0")
        case True
        with ok Cons have "ci' = ci" "t' = []" by (auto simp: ret_def)
        with ok(3) Cons True show ?thesis
          by (auto simp: is_step_def intro!: exI[of _ "[]"])
      next
        case False
        with ok Cons have "seqr (time_sleep B POLL_INTERVAL)
                     (\<lambda>_. await_drained fuel B cluster arn) w1 = (Returned ci, t', w')" by simp
        then obtain t3 where
          rec: "await_drained fuel B cluster arn (sleep B POLL_INTERVAL w1) = (Returned ci, t3, w')"
          and t2: "t' = (Sleep POLL_INTERVAL, Ok) # t3"
          by (rule seqr_sleepE)
        from Suc.IH[OF rec] obtain busy cis' where
          z: "runningTasksCount ci = 0"
          and f: "filter is_step t3 =
             busy @ [(DescribeContainerInstances cluster [arn], Instances (ci # cis'))]"
          and b: "list_all (still_busy cluster arn) busy" by blast
        have "filter is_step t =
            ((DescribeContainerInstances cluster [arn], Instances (ci' # cis)) # busy)
             @ [(DescribeContainerInstances cluster [arn], Instances (ci # cis'))]"
          using ok(3) t2 f Cons by (simp add: is_step_def)
        moreover have "list_all (still_busy cluster arn)
            ((DescribeContainerInstances cluster [arn], Instances (ci' # cis)) # busy)"
          using b False by (simp add: still_busy_def)
        ultimately show ?thesis using z by blast
      qed
    qed
  next
    case (failed e)
    then show ?thesis by simp
  qed
qed

section \<open>The loop over the listed container instances\<close>

text \<open>One round of the loop, by the place where it ends.\<close>

lemma recycle_ConsE:
  assumes "recycle fuel B cfg pd nd i (arn # rest) w = (r, t, w')"
  obtains
    (wait_stopped) "r \<noteq> Returned ()"
      "wait_for_ecs_count fuel B nd (ECS_CLUSTER cfg) POLL_INTERVAL w = (r, t, w')"
  | (drain_failed) tw w1 e where
      "wait_for_ecs_count fuel B nd (ECS_CLUSTER cfg) POLL_INTERVAL w = (Returned (), tw, w1)"
      "r = Raised e"
      "t = tw @ [(Sleep POLL_INTERVAL, Ok),
                 (UpdateContainerInstancesState (ECS_CLUSTER cfg) [arn] ''DRAINING'', Failed e)]"
  | (await_stopped) tw w1 w3 ra td where
      "wait_for_ecs_count fuel B nd (ECS_CLUSTER cfg) POLL_INTERVAL w = (Returned (), tw, w1)"
      "await_drained fuel B (ECS_CLUSTER cfg) arn w3 = (ra, td, w')"
      "(\<exists>e. ra = Raised e \<and> r = Raised e) \<or> (ra = OutOfFuel \<and> r = OutOfFuel)"
      "t = tw @ [(Sleep POLL_INTERVAL, Ok),
                 (UpdateContainerInstancesState (ECS_CLUSTER cfg) [arn] ''DRAINING'', Ok)] @ td"
  | (last) tw w1 w3 w4 td ci where
      "pd \<le> i + 1" "r = Returned ()"
      "wait_for_ecs_count fuel B nd (ECS_CLUSTER cfg) POLL_INTERVAL w = (Returned (), tw, w1)"
      "await_drained fuel B (ECS_CLUSTER cfg) arn w3 = (Returned ci, td, w4)"
      "t = tw @ [(Sleep POLL_INTERVAL, Ok),
                 (UpdateContainerInstancesState (ECS_CLUSTER cfg) [arn] ''DRAINING'', Ok)] @ td
             @ [(Sleep POLL_INTERVAL, Ok)]"
  | (terminate_failed) tw w1 w3 w4 td ci e where
      "i + 1 < pd" "r = Raised e"
      "wait_for_ecs_count fuel B nd (ECS_CLUSTER cfg) POLL_INTERVAL w = (Returned (), tw, w1)"
      "await_drained fuel B (ECS_CLUSTER cfg) arn w3 = (Returned ci, td, w4)"
      "t = tw @ [(Sleep POLL_INTERVAL, Ok),
                 (UpdateContainerInstancesState (ECS_CLUSTER cfg) [arn] ''DRAINING'', Ok)] @ td
             @ [(Sleep POLL_INTERVAL, Ok),
                (TerminateInstanceInAutoScalingGroup (ec2InstanceId ci) False, Failed e)]"
  | (continue) tw w1 w3 w4 td ci w6 tr where
      "i + 1 < pd"
      "wait_for_ecs_count fuel B nd (ECS_CLUSTER cfg) POLL_INTERVAL w = (Returned (), tw, w1)"
      "await_drained fuel B (ECS_CLUSTER cfg) arn w3 = (Returned ci, td, w4)"
      "recycle fuel B cfg pd nd (i + 1) rest w6 = (r, tr, w')"
      "t = tw @ [(Sleep POLL_INTERVAL, Ok),
                 (UpdateContainerInstancesState (ECS_CLUSTER cfg) [arn] ''DRAINING'', Ok)] @ td
             @ [(Sleep POLL_INTERVAL, Ok),
                (TerminateInstanceInAutoScalingGroup (ec2InstanceId ci) False, Ok),
                (Sleep POLL_INTERVAL, Ok)] @ tr"
  using assms[unfolded recycle.simps]
proof (cases rule: seqrE)
  case (ret u tw w1 t2)
  note wait = ret(1) and t = ret(3)
  from ret(2) obtain t3 where
    s3: "seqr (ecs_update_container_instances_state B (ECS_CLUSTER cfg) [arn] ''DRAINING'') (\<lambda>_.
     seqr (await_drained fuel B (ECS_CLUSTER cfg) arn) (\<lambda>container_instance.
     seqr (time_sleep B POLL_INTERVAL) (\<lambda>_.
     if i + 1 \<ge> pd then Spec2Isabelle.ret ()
     else
       seqr (autoscaling_terminate_instance_in_auto_scaling_group B
               (ec2InstanceId container_instance) False) (\<lambda>_.
       seqr (time_sleep B POLL_INTERVAL) (\<lambda>_.
       recycle fuel B cfg pd nd (i + 1) rest))))) (sleep B POLL_INTERVAL w1) = (r, t3, w')"
    and t2: "t2 = (Sleep POLL_INTERVAL, Ok) # t3"
    by (rule seqr_sleepE)
  from s3[unfolded ecs_update_container_instances_state_def]
  show ?thesis
  proof (cases rule: seqr_remoteE)
    case (ok a w3 t4)
    note t3 = ok(3)
    from ok(2)
    show ?thesis
    proof (cases rule: seqrE)
      case (ret ci td w4 t5)
      note aw = ret(1) and t4 = ret(3)
      from ret(2) obtain t6 where
        s6: "(if i + 1 \<ge> pd then Spec2Isabelle.ret ()
     else
       seqr (autoscaling_terminate_instance_in_auto_scaling_group B
               (ec2InstanceId ci) False) (\<lambda>_.
       seqr (time_sleep B POLL_INTERVAL) (\<lambda>_.
       recycle fuel B cfg pd nd (i + 1) rest))) (sleep B POLL_INTERVAL w4) = (r, t6, w')"
        and t5: "t5 = (Sleep POLL_INTERVAL, Ok) # t6"
        by (rule seqr_sleepE)
      show ?thesis
      proof (cases "pd \<le> i + 1")
        case True
        with s6 have "r = Returned ()" "t6 = []" by (auto simp: ret_def)
        with True wait aw t t2 t3 t4 t5
        show ?thesis by (intro last[of tw w1 w3 ci td w4]) auto
      next
        case False
        with s6 have s7: "seqr (autoscaling_terminate_instance_in_auto_scaling_group B
               (ec2InstanceId ci) False) (\<lambda>_.
             seqr (time_sleep B POLL_INTERVAL) (\<lambda>_.
             recycle fuel B cfg pd nd (i + 1) rest)) (sleep B POLL_INTERVAL w4) = (r, t6, w')" by simp
        from s7[unfolded
                autoscaling_terminate_instance_in_auto_scaling_group_def]
        show ?thesis
        proof (cases rule: seqr_remoteE)
          case (ok a' w5 t7)
          from ok(2) obtain tr where
            rec: "recycle fuel B cfg pd nd (i + 1) rest (sleep B POLL_INTERVAL w5) = (r, tr, w')"
            and t7: "t7 = (Sleep POLL_INTERVAL, Ok) # tr"
            by (rule seqr_sleepE)
          from False wait aw rec t t2 t3 t4 t5 t7 ok(3)
          show ?thesis by (intro continue[of tw w1 w3 ci td w4 _ tr]) auto
        next
          case (failed e)
          with False wait aw t t2 t3 t4 t5
          show ?thesis by (intro terminate_failed[of e tw w1 w3 ci td w4]) auto
        qed
      qed
    next
      case (raised e)
      with wait t t2 t3
      show ?thesis by (intro await_stopped[of tw w1 w3 "Raised e" t4]) auto
    next
      case fuel
      with wait t t2 t3
      show ?thesis by (intro await_stopped[of tw w1 w3 OutOfFuel t4]) auto
    qed
  next
    case (failed e)
    with wait t t2 show ?thesis by (intro drain_failed[of tw w1 e]) auto
  qed
next
  case (raised e)
  then show ?thesis by (intro wait_stopped) auto
next
  case fuel
  then show ?thesis by (intro wait_stopped) auto
qed

text \<open>The same, with what is known of the two waits.\<close>

lemma recycle_roundE:
  assumes "recycle fuel B cfg pd nd i (arn # rest) w = (r, t, w')"
  obtains
    (wait_stopped) "r \<noteq> Returned ()"
      "list_all (poll_call (ECS_CLUSTER cfg) POLL_INTERVAL) t"
  | (drain_failed) tw e where
      "list_all (poll_call (ECS_CLUSTER cfg) POLL_INTERVAL) tw"
      "\<forall>g. foldl (guard_step nd) g tw = Polled"
      "r = Raised e"
      "t = tw @ [(Sleep POLL_INTERVAL, Ok),
                 (UpdateContainerInstancesState (ECS_CLUSTER cfg) [arn] ''DRAINING'', Failed e)]"
  | (await_stopped) tw td where
      "list_all (poll_call (ECS_CLUSTER cfg) POLL_INTERVAL) tw"
      "\<forall>g. foldl (guard_step nd) g tw = Polled"
      "list_all (probe_call (ECS_CLUSTER cfg) arn) td" "marks td = []"
      "r \<noteq> Returned ()"
      "t = tw @ [(Sleep POLL_INTERVAL, Ok),
                 (UpdateContainerInstancesState (ECS_CLUSTER cfg) [arn] ''DRAINING'', Ok)] @ td"
  | (last) tw td and ci :: container_instance where
      "pd \<le> i + 1" "r = Returned ()"
      "list_all (poll_call (ECS_CLUSTER cfg) POLL_INTERVAL) tw"
      "\<forall>g. foldl (guard_step nd) g tw = Polled"
      "list_all (probe_call (ECS_CLUSTER cfg) arn) td" "marks td = [Empty (ec2InstanceId ci)]"
      "t = tw @ [(Sleep POLL_INTERVAL, Ok),
                 (UpdateContainerInstancesState (ECS_CLUSTER cfg) [arn] ''DRAINING'', Ok)] @ td
             @ [(Sleep POLL_INTERVAL, Ok)]"
  | (terminate_failed) tw td and ci :: container_instance and e where
      "i + 1 < pd" "r = Raised e"
      "list_all (poll_call (ECS_CLUSTER cfg) POLL_INTERVAL) tw"
      "\<forall>g. foldl (guard_step nd) g tw = Polled"
      "list_all (probe_call (ECS_CLUSTER cfg) arn) td" "marks td = [Empty (ec2InstanceId ci)]"
      "t = tw @ [(Sleep POLL_INTERVAL, Ok),
                 (UpdateContainerInstancesState (ECS_CLUSTER cfg) [arn] ''DRAINING'', Ok)] @ td
             @ [(Sleep POLL_INTERVAL, Ok),
                (TerminateInstanceInAutoScalingGroup (ec2InstanceId ci) False, Failed e)]"
  | (continue) tw td and ci :: container_instance and w6 tr where
      "i + 1 < pd"
      "list_all (poll_call (ECS_CLUSTER cfg) POLL_INTERVAL) tw"
      "\<forall>g. foldl (guard_step nd) g tw = Polled"
      "list_all (probe_call (ECS_CLUSTER cfg) arn) td" "marks td = [Empty (ec2InstanceId ci)]"
      "recycle fuel B cfg pd nd (i + 1) rest w6 = (r, tr, w')"
      "t = tw @ [(Sleep POLL_INTERVAL, Ok),
                 (UpdateContainerInstancesState (ECS_CLUSTER cfg) [arn] ''DRAINING'', Ok)] @ td
             @ [(Sleep POLL_INTERVAL, Ok),
                (TerminateInstanceInAutoScalingGroup (ec2InstanceId ci) False, Ok),
                (Sleep POLL_INTERVAL, Ok)] @ tr"
proof -
  have polled: "\<forall>g. foldl (guard_step nd) g tw = Polled"
    if "wait_for_ecs_count fuel B nd (ECS_CLUSTER cfg) POLL_INTERVAL w = (Returned (), tw, w1)"
    for tw w1
  proof -
    from wait_for_ecs_count_returned[OF that] obtain t0 xs where
      "tw = t0 @ [(ListContainerInstances (ECS_CLUSTER cfg), Arns xs)]" "nd \<le> int (length xs)"
      by blast
    then show ?thesis by (simp add: guard_step_def)
  qed
  from assms show ?thesis
  proof (cases rule: recycle_ConsE)
    case wait_stopped
    show ?thesis
      by (rule that(1)[OF wait_stopped(1) wait_for_ecs_count_calls[OF wait_stopped(2)]])
  next
    case (drain_failed tw w1 e)
    show ?thesis
      by (rule that(2)[OF wait_for_ecs_count_calls[OF drain_failed(1)] polled[OF drain_failed(1)]
            drain_failed(2,3)])
  next
    case (await_stopped tw w1 w3 ra td)
    from await_stopped(3) have r: "r \<noteq> Returned ()" by auto
    from await_drained_calls[OF await_stopped(2)] await_stopped(3)
    have td: "list_all (probe_call (ECS_CLUSTER cfg) arn) td" "marks td = []" by auto
    show ?thesis
      by (rule that(3)[OF wait_for_ecs_count_calls[OF await_stopped(1)]
            polled[OF await_stopped(1)] td r await_stopped(4)])
  next
    case (last tw w1 w3 w4 td ci)
    from await_drained_calls[OF last(4)]
    have td: "list_all (probe_call (ECS_CLUSTER cfg) arn) td"
      "marks td = [Empty (ec2InstanceId ci)]" by auto
    show ?thesis
      by (rule that(4)[OF last(1,2) wait_for_ecs_count_calls[OF last(3)] polled[OF last(3)]
            td last(5)])
  next
    case (terminate_failed tw w1 w3 w4 td ci e)
    from await_drained_calls[OF terminate_failed(4)]
    have td: "list_all (probe_call (ECS_CLUSTER cfg) arn) td"
      "marks td = [Empty (ec2InstanceId ci)]" by auto
    show ?thesis
      by (rule that(5)[OF terminate_failed(1,2) wait_for_ecs_count_calls[OF terminate_failed(3)]
            polled[OF terminate_failed(3)] td terminate_failed(5)])
  next
    case (continue tw w1 w3 w4 td ci w6 tr)
    from await_drained_calls[OF continue(3)]
    have td: "list_all (probe_call (ECS_CLUSTER cfg) arn) td"
      "marks td = [Empty (ec2InstanceId ci)]" by auto
    show ?thesis
      by (rule that(6)[OF continue(1) wait_for_ecs_count_calls[OF continue(2)]
            polled[OF continue(2)] td continue(4,5)])
  qed
qed

lemma recycle_loop_calls:
  "recycle fuel B cfg pd nd i arns w = (r, t, w') \<Longrightarrow> list_all (loop_call cfg) t"
proof (induction arns arbitrary: i w t)
  case Nil
  then show ?case by (simp add: ret_def)
next
  case (Cons arn rest)
  have one: "loop_call cfg (Sleep POLL_INTERVAL, Ok)"
    "loop_call cfg (UpdateContainerInstancesState (ECS_CLUSTER cfg) [arn] ''DRAINING'', x)"
    "loop_call cfg (TerminateInstanceInAutoScalingGroup y False, x)" for x y
    by (simp_all add: loop_call_def)
  from Cons.prems show ?case
  proof (cases rule: recycle_roundE)
    case wait_stopped
    then show ?thesis by (simp add: polls_loop_call)
  next
    case (drain_failed tw e)
    then show ?thesis by (simp add: polls_loop_call one)
  next
    case (await_stopped tw td)
    then show ?thesis by (simp add: polls_loop_call probes_loop_call one)
  next
    case (last tw td ci)
    then show ?thesis by (simp add: polls_loop_call probes_loop_call one)
  next
    case (terminate_failed tw td ci e)
    then show ?thesis by (simp add: polls_loop_call probes_loop_call one)
  next
    case (continue tw td ci w6 tr)
    with Cons.IH[OF continue(6)] show ?thesis
      by (simp add: polls_loop_call probes_loop_call one)
  qed
qed

lemma recycle_guarded:
  "recycle fuel B cfg pd nd i arns w = (r, t, w') \<Longrightarrow> drains_guarded nd g t"
proof (induction arns arbitrary: i w t g)
  case Nil
  then show ?case by (simp add: ret_def)
next
  case (Cons arn rest)
  have sl: "guard_step nd Polled (Sleep POLL_INTERVAL, Ok) = Armed"
    by (simp add: guard_step_def)
  have nodr: "\<not> is_drain (Sleep POLL_INTERVAL, Ok)"
    "\<not> is_drain (TerminateInstanceInAutoScalingGroup y False, x)" for x y
    by (simp_all add: is_drain_def)
  from Cons.prems show ?case
  proof (cases rule: recycle_roundE)
    case wait_stopped
    then show ?thesis by (simp add: polls_guarded)
  next
    case (drain_failed tw e)
    then show ?thesis by (simp add: drains_guarded_append polls_guarded sl nodr)
  next
    case (await_stopped tw td)
    then show ?thesis by (simp add: drains_guarded_append polls_guarded probes_guarded sl nodr)
  next
    case (last tw td ci)
    then show ?thesis by (simp add: drains_guarded_append polls_guarded probes_guarded sl nodr)
  next
    case (terminate_failed tw td ci e)
    then show ?thesis by (simp add: drains_guarded_append polls_guarded probes_guarded sl nodr)
  next
    case (continue tw td ci w6 tr)
    with Cons.IH[OF continue(6)] show ?thesis
      by (simp add: drains_guarded_append polls_guarded probes_guarded sl nodr)
  qed
qed


lemma recycle_terminations:
  "recycle fuel B cfg pd nd i arns w = (Returned (), t, w') \<Longrightarrow>
     length (filter is_terminate t) = min (length arns) (nat (pd - 1 - i)) \<and>
     length (filter is_drain t) = min (length arns) (max 1 (nat (pd - i)))"
proof (induction arns arbitrary: i w t)
  case Nil
  then show ?case by (simp add: ret_def)
next
  case (Cons arn rest)
  have one: "\<not> is_terminate (Sleep POLL_INTERVAL, Ok)"
    "\<not> is_terminate (UpdateContainerInstancesState c a s, x)"
    "is_terminate (TerminateInstanceInAutoScalingGroup y False, x)"
    "\<not> is_drain (Sleep POLL_INTERVAL, Ok)"
    "is_drain (UpdateContainerInstancesState c a s, x)"
    "\<not> is_drain (TerminateInstanceInAutoScalingGroup y False, x)" for x y c a s
    by (simp_all add: is_terminate_def is_drain_def)
  from Cons.prems show ?case
  proof (cases rule: recycle_roundE)
    case (last tw td ci)
    then show ?thesis
      by (simp add: polls_no_terminate probes_no_terminate polls_no_drain probes_no_drain one)
  next
    case (continue tw td ci w6 tr)
    from continue(1) have k1: "nat (pd - 1 - i) = Suc (nat (pd - 1 - (i + 1)))"
      and k2: "max 1 (nat (pd - i)) = Suc (max 1 (nat (pd - (i + 1))))"
      by simp_all
    from Cons.IH[OF continue(6)]
    have ih: "length (filter is_terminate tr) = min (length rest) (nat (pd - 1 - (i + 1)))"
      "length (filter is_drain tr) = min (length rest) (max 1 (nat (pd - (i + 1))))"
      by simp_all
    have "length (filter is_terminate t) = Suc (length (filter is_terminate tr))"
      "length (filter is_drain t) = Suc (length (filter is_drain tr))"
      using continue(2,4,7)
      by (simp_all add: polls_no_terminate probes_no_terminate polls_no_drain probes_no_drain one)
    then show ?thesis unfolding k1 k2 ih by simp
  qed simp_all
qed

lemma recycle_terminations_le:
  "recycle fuel B cfg pd nd i arns w = (r, t, w') \<Longrightarrow>
     length (filter is_terminate t) \<le> min (length arns) (nat (pd - 1 - i))"
proof (induction arns arbitrary: i w t)
  case Nil
  then show ?case by (simp add: ret_def)
next
  case (Cons arn rest)
  have one: "\<not> is_terminate (Sleep POLL_INTERVAL, Ok)"
    "\<not> is_terminate (UpdateContainerInstancesState c a s, x)"
    "is_terminate (TerminateInstanceInAutoScalingGroup y False, x)" for x y c a s
    by (simp_all add: is_terminate_def)
  from Cons.prems show ?case
  proof (cases rule: recycle_roundE)
    case wait_stopped
    then show ?thesis by (simp add: polls_no_terminate)
  next
    case (drain_failed tw e)
    then show ?thesis by (simp add: polls_no_terminate one)
  next
    case (await_stopped tw td)
    then show ?thesis by (simp add: polls_no_terminate probes_no_terminate one)
  next
    case (last tw td ci)
    then show ?thesis by (simp add: polls_no_terminate probes_no_terminate one)
  next
    case (terminate_failed tw td ci e)
    from terminate_failed(1) have k1: "nat (pd - 1 - i) = Suc (nat (pd - 1 - (i + 1)))"
      by simp
    from terminate_failed(3,5,7) have "length (filter is_terminate t) = 1"
      by (simp add: polls_no_terminate probes_no_terminate one)
    then show ?thesis unfolding k1 by simp
  next
    case (continue tw td ci w6 tr)
    from continue(1) have k1: "nat (pd - 1 - i) = Suc (nat (pd - 1 - (i + 1)))"
      by simp
    from continue(2,4,7) have "length (filter is_terminate t) = Suc (length (filter is_terminate tr))"
      by (simp add: polls_no_terminate probes_no_terminate one)
    with Cons.IH[OF continue(6)] show ?thesis unfolding k1 by simp
  qed
qed

lemma recycle_drained_prefix:
  "recycle fuel B cfg pd nd i arns w = (r, t, w') \<Longrightarrow> prefix (drained t) arns"
proof (induction arns arbitrary: i w t)
  case Nil
  then show ?case by (simp add: ret_def drained_simps)
next
  case (Cons arn rest)
  from Cons.prems show ?case
  proof (cases rule: recycle_roundE)
    case wait_stopped
    then show ?thesis by (simp add: polls_drained)
  next
    case (drain_failed tw e)
    then show ?thesis by (simp add: drained_append polls_drained drained_simps)
  next
    case (await_stopped tw td)
    then show ?thesis by (simp add: drained_append polls_drained probes_drained drained_simps)
  next
    case (last tw td ci)
    then show ?thesis by (simp add: drained_append polls_drained probes_drained drained_simps)
  next
    case (terminate_failed tw td ci e)
    then show ?thesis by (simp add: drained_append polls_drained probes_drained drained_simps)
  next
    case (continue tw td ci w6 tr)
    with Cons.IH[OF continue(6)] show ?thesis
      by (simp add: drained_append polls_drained probes_drained drained_simps)
  qed
qed

lemma recycle_drained_returned:
  "recycle fuel B cfg pd nd i arns w = (Returned (), t, w') \<Longrightarrow>
     drained t = take (max 1 (nat (pd - i))) arns"
proof (induction arns arbitrary: i w t)
  case Nil
  then show ?case by (simp add: ret_def drained_simps)
next
  case (Cons arn rest)
  from Cons.prems show ?case
  proof (cases rule: recycle_roundE)
    case (last tw td ci)
    from last(1) have "max 1 (nat (pd - i)) = 1" by simp
    with last show ?thesis
      by (simp add: drained_append polls_drained probes_drained drained_simps)
  next
    case (continue tw td ci w6 tr)
    from continue(1) have k2: "max 1 (nat (pd - i)) = Suc (max 1 (nat (pd - (i + 1))))"
      by simp
    from continue Cons.IH[OF continue(6)] show ?thesis unfolding k2
      by (simp add: drained_append polls_drained probes_drained drained_simps)
  qed simp_all
qed


text \<open>The steps of a loop that ended normally.\<close>

lemma recycle_rounds:
  "recycle fuel B cfg pd nd i arns w = (Returned (), t, w') \<Longrightarrow>
     rounds (ECS_CLUSTER cfg) (nat (pd - 1 - i)) arns (filter is_step t)"
proof (induction arns arbitrary: i w t)
  case Nil
  then show ?case by (simp add: ret_def)
next
  case (Cons arn rest)
  have one: "\<not> is_step (Sleep POLL_INTERVAL, Ok)"
    "is_step (UpdateContainerInstancesState c a s, x)"
    "is_step (TerminateInstanceInAutoScalingGroup y False, x)" for x y c a s
    by (simp_all add: is_step_def)
  have nb: "\<not> still_busy c a (DescribeContainerInstances c' a', Instances (ci # cis))"
    if "runningTasksCount ci = 0" for c a c' a' cis and ci :: container_instance
    using that by (simp add: still_busy_def)
  from Cons.prems show ?case
  proof (cases rule: recycle_ConsE)
    case (last tw w1 w3 w4 td ci)
    from await_drained_steps[OF last(4)] obtain busy cis where
      z: "runningTasksCount ci = 0"
      and f: "filter is_step td =
         busy @ [(DescribeContainerInstances (ECS_CLUSTER cfg) [arn], Instances (ci # cis))]"
      and b: "list_all (still_busy (ECS_CLUSTER cfg) arn) busy" by blast
    from last(1) have k: "nat (pd - 1 - i) = 0" by simp
    show ?thesis
      unfolding k last(5)
      using polls_steps[OF wait_for_ecs_count_calls[OF last(3)]] f z
      by (simp add: one dropWhile_all[OF b] nb)
  next
    case (continue tw w1 w3 w4 td ci w6 tr)
    from await_drained_steps[OF continue(3)] obtain busy cis where
      z: "runningTasksCount ci = 0"
      and f: "filter is_step td =
         busy @ [(DescribeContainerInstances (ECS_CLUSTER cfg) [arn], Instances (ci # cis))]"
      and b: "list_all (still_busy (ECS_CLUSTER cfg) arn) busy" by blast
    from continue(1) have k: "nat (pd - 1 - i) = Suc (nat (pd - 1 - (i + 1)))" by simp
    show ?thesis
      unfolding k continue(5)
      using polls_steps[OF wait_for_ecs_count_calls[OF continue(2)]] f z Cons.IH[OF continue(4)]
      by (simp add: one dropWhile_all[OF b] nb)
  qed simp_all
qed

lemma rounds_all:
  "length arns \<le> k \<Longrightarrow> rounds cluster k arns ss \<Longrightarrow> rounds cluster (length arns) arns ss"
proof (induction arns arbitrary: k ss)
  case Nil
  then show ?case by simp
next
  case (Cons arn rest)
  then obtain k' where k: "k = Suc k'" and le: "length rest \<le> k'" by (cases k) auto
  from Cons.prems(2) show ?case
    unfolding k
    by (cases ss)
      (auto split: list.splits reply.splits simp del: dropWhile_eq_Nil_conv intro: Cons.IH[OF le])
qed

section \<open>Runs of the entry point\<close>

lemma get_asgE:
  assumes "get_asg B name w = (r, t, w')"
  obtains (found) g gs where "r = Returned g"
      "t = [(DescribeAutoScalingGroups [name], Asgs (g # gs))]"
  | (empty) "r = Raised IndexError" "t = [(DescribeAutoScalingGroups [name], Asgs [])]"
  | (failed) e where "r = Raised e" "t = [(DescribeAutoScalingGroups [name], Failed e)]"
  using assms[unfolded get_asg_def autoscaling_describe_auto_scaling_groups_def]
proof (cases rule: seqr_remoteE)
  case (ok groups w1 t')
  show ?thesis
  proof (cases groups)
    case Nil
    with ok show ?thesis by (intro empty) (auto simp: raise_def)
  next
    case (Cons g gs)
    with ok show ?thesis by (intro found[of g gs]) (auto simp: ret_def)
  qed
next
  case (failed e)
  then show ?thesis by (intro that(3)[of e]) auto
qed

text \<open>A run of the entry point, by the place where it ends.\<close>

lemma handlerE:
  assumes "handler fuel B cfg event context w = (r, t, w')"
  obtains
    (suspend_failed) e where "r = Raised e"
      "t = [(SuspendProcesses (ASG_NAME cfg) SUSPEND_PROCESSES, Failed e)]"
  | (describe_failed) e where "r = Raised e"
      "t = [(SuspendProcesses (ASG_NAME cfg) SUSPEND_PROCESSES, Ok),
            (DescribeAutoScalingGroups [ASG_NAME cfg], Failed e)]"
  | (no_group) "r = Raised IndexError"
      "t = [(SuspendProcesses (ASG_NAME cfg) SUSPEND_PROCESSES, Ok),
            (DescribeAutoScalingGroups [ASG_NAME cfg], Asgs [])]"
  | (list_failed) g :: asg and gs e where "r = Raised e"
      "t = [(SuspendProcesses (ASG_NAME cfg) SUSPEND_PROCESSES, Ok),
            (DescribeAutoScalingGroups [ASG_NAME cfg], Asgs (g # gs)),
            (ListContainerInstances (ECS_CLUSTER cfg), Failed e)]"
  | (scale_failed) g :: asg and gs arns e where "r = Raised e"
      "t = [(SuspendProcesses (ASG_NAME cfg) SUSPEND_PROCESSES, Ok),
            (DescribeAutoScalingGroups [ASG_NAME cfg], Asgs (g # gs)),
            (ListContainerInstances (ECS_CLUSTER cfg), Arns arns),
            (UpdateAutoScalingGroup (ASG_NAME cfg)
               (new_max_size_of (DesiredCapacity g) (MaxSize g))
               (new_desired_capacity_of (DesiredCapacity g)), Failed e)]"
  | (loop_stopped) g :: asg and gs arns w4 tr where "r \<noteq> Returned ()"
      "recycle fuel B cfg (DesiredCapacity g) (new_desired_capacity_of (DesiredCapacity g)) 0 arns w4
         = (r, tr, w')"
      "t = started cfg g gs arns @ tr"
  | (resume_failed) g :: asg and gs arns w4 tr w5 e where "r = Raised e"
      "recycle fuel B cfg (DesiredCapacity g) (new_desired_capacity_of (DesiredCapacity g)) 0 arns w4
         = (Returned (), tr, w5)"
      "t = started cfg g gs arns @ tr
             @ [(ResumeProcesses (ASG_NAME cfg) SUSPEND_PROCESSES, Failed e)]"
  | (restore_failed) g :: asg and gs arns w4 tr w5 e where "r = Raised e"
      "recycle fuel B cfg (DesiredCapacity g) (new_desired_capacity_of (DesiredCapacity g)) 0 arns w4
         = (Returned (), tr, w5)"
      "t = started cfg g gs arns @ tr
             @ [(ResumeProcesses (ASG_NAME cfg) SUSPEND_PROCESSES, Ok),
                (UpdateAutoScalingGroup (ASG_NAME cfg) (MaxSize g) (DesiredCapacity g), Failed e)]"
  | (completed) g :: asg and gs arns w4 tr w5 where "r = Returned ()"
      "recycle fuel B cfg (DesiredCapacity g) (new_desired_capacity_of (DesiredCapacity g)) 0 arns w4
         = (Returned (), tr, w5)"
      "t = started cfg g gs arns @ tr
             @ [(ResumeProcesses (ASG_NAME cfg) SUSPEND_PROCESSES, Ok),
                (UpdateAutoScalingGroup (ASG_NAME cfg) (MaxSize g) (DesiredCapacity g), Ok)]"
  using assms[unfolded handler_def autoscaling_suspend_processes_def]
proof (cases rule: seqr_remoteE)
  case (failed e)
  then show ?thesis by (intro suspend_failed[of e]) auto
next
  case (ok u w1 t1)
  note t = ok(3)
  from ok(2) show ?thesis
  proof (cases rule: seqrE)
    case (raised e)
    from raised(1) show ?thesis
    proof (cases rule: get_asgE)
      case (found g gs)
      then show ?thesis by simp
    next
      case empty
      with raised t show ?thesis by (intro no_group) auto
    next
      case (failed e')
      with raised t show ?thesis by (intro describe_failed[of e']) auto
    qed
  next
    case fuel
    from fuel(1) show ?thesis by (cases rule: get_asgE) simp_all
  next
    case (ret g t2 w2 t3)
    from ret(1) obtain gs where t2: "t2 = [(DescribeAutoScalingGroups [ASG_NAME cfg], Asgs (g # gs))]"
      by (cases rule: get_asgE) simp_all
    note t1 = ret(3)
    from ret(2)[unfolded ecs_list_container_instances_def] show ?thesis
    proof (cases rule: seqr_remoteE)
      case (failed e)
      with t t1 t2 show ?thesis by (intro list_failed[of e g gs]) auto
    next
      case (ok arns w3 t4)
      note t3 = ok(3)
      from ok(2)[unfolded autoscaling_update_auto_scaling_group_def] show ?thesis
      proof (cases rule: seqr_remoteE)
        case (failed e)
        with t t1 t2 t3 show ?thesis by (intro scale_failed[of e g gs arns]) auto
      next
        case (ok u' w4 t5)
        have st: "t = started cfg g gs arns @ t5"
          using t t1 t2 t3 ok(3) by (simp add: started_def)
        from ok(2) show ?thesis
        proof (cases rule: seqrE)
          case (raised e)
          with st show ?thesis by (intro loop_stopped[of g arns w4 t5 gs]) auto
        next
          case fuel
          with st show ?thesis by (intro loop_stopped[of g arns w4 t5 gs]) auto
        next
          case (ret u'' tr w5 t6)
          note loop = ret(1) and t5 = ret(3)
          from ret(2)[unfolded cleanup_def autoscaling_resume_processes_def] show ?thesis
          proof (cases rule: seqr_remoteE)
            case (failed e)
            with st t5 loop show ?thesis by (intro resume_failed[of e g arns w4 tr w5 gs]) auto
          next
            case (ok u3 w6 t7)
            from ok(2)[unfolded autoscaling_update_auto_scaling_group_def] show ?thesis
            proof (cases rule: remoteE)
              case (failed e)
              with st t5 loop ok(3) show ?thesis
                by (intro restore_failed[of e g arns w4 tr w5 gs]) auto
            next
              case (ok u4)
              with st t5 loop \<open>t6 = _ # t7\<close> show ?thesis
                by (intro completed[of g arns w4 tr w5 gs]) auto
            qed
          qed
        qed
      qed
    qed
  qed
qed

lemma handler_configured:
  assumes "handler fuel B cfg event context w = (r, t, w')"
  shows "list_all (configured cfg) t"
  using assms
proof (cases rule: handlerE)
  case (loop_stopped g gs arns w4 tr)
  from loop_calls_configured[OF recycle_loop_calls[OF loop_stopped(2)]] loop_stopped(3)
  show ?thesis by (simp add: started_configured)
next
  case (resume_failed g gs arns w4 tr w5 e)
  from loop_calls_configured[OF recycle_loop_calls[OF resume_failed(2)]] resume_failed(3)
  show ?thesis by (simp add: started_configured) (simp add: configured_def)
next
  case (restore_failed g gs arns w4 tr w5 e)
  from loop_calls_configured[OF recycle_loop_calls[OF restore_failed(2)]] restore_failed(3)
  show ?thesis by (simp add: started_configured) (simp add: configured_def)
next
  case (completed g gs arns w4 tr w5)
  from loop_calls_configured[OF recycle_loop_calls[OF completed(2)]] completed(3)
  show ?thesis by (simp add: started_configured) (simp add: configured_def)
qed (simp_all add: configured_def)

text \<open>
  In every run, every call that sets an instance state is made right after a listing of
  at least \<open>DesiredCapacity + 1\<close> container instances and one sleep; a run that did not
  get a group description sets no instance state.
\<close>

lemma handler_drains_guarded:
  assumes "handler fuel B cfg event context w = (r, t, w')"
  shows "case described_group t of
           None \<Rightarrow> filter is_drain t = []
         | Some g \<Rightarrow> drains_guarded (DesiredCapacity g + 1) Idle t"
  using assms
proof (cases rule: handlerE)
  case (loop_stopped g gs arns w4 tr)
  from recycle_guarded[OF loop_stopped(2)[unfolded new_desired_capacity_of_def]] loop_stopped(3)
  show ?thesis by (simp add: started_facts drains_guarded_append started_more_facts)
next
  case (resume_failed g gs arns w4 tr w5 e)
  from recycle_guarded[OF resume_failed(2)[unfolded new_desired_capacity_of_def]] resume_failed(3)
  show ?thesis
    by (simp add: started_facts drains_guarded_append started_more_facts is_drain_def)
next
  case (restore_failed g gs arns w4 tr w5 e)
  from recycle_guarded[OF restore_failed(2)[unfolded new_desired_capacity_of_def]] restore_failed(3)
  show ?thesis
    by (simp add: started_facts drains_guarded_append started_more_facts is_drain_def)
next
  case (completed g gs arns w4 tr w5)
  from recycle_guarded[OF completed(2)[unfolded new_desired_capacity_of_def]] completed(3)
  show ?thesis
    by (simp add: started_facts drains_guarded_append started_more_facts is_drain_def)
qed (simp_all add: is_drain_def)

section \<open>The bound on the number of polls\<close>

text \<open>
  The fuel only cuts off runs that are still waiting: a wait, a loop or a run of the
  entry point that returns or raises under some bound does the same, with the same trace
  and the same final world, under every larger bound.
\<close>

lemma wait_for_ecs_count_more_fuel:
  "wait_for_ecs_count fuel B wanted cluster poll w = (r, t, w') \<Longrightarrow> r \<noteq> OutOfFuel \<Longrightarrow>
     wait_for_ecs_count (fuel + k) B wanted cluster poll w = (r, t, w')"
proof (induction fuel arbitrary: w r t w')
  case 0
  then show ?case by simp
next
  case (Suc fuel)
  from Suc.prems(1)[unfolded wait_for_ecs_count.simps ecs_list_container_instances_def]
  show ?case
  proof (cases rule: seqr_remoteE)
    case (ok xs w1 t')
    show ?thesis
    proof (cases "wanted \<le> int (length xs)")
      case True
      with ok show ?thesis
        by (simp add: ecs_list_container_instances_def seqr_def remote_def)
    next
      case False
      with ok have "seqr (time_sleep B poll)
          (\<lambda>_. wait_for_ecs_count fuel B wanted cluster poll) w1 = (r, t', w')" by simp
      then obtain t3 where
        rec: "wait_for_ecs_count fuel B wanted cluster poll (sleep B poll w1) = (r, t3, w')"
        and t2: "t' = (Sleep poll, Ok) # t3"
        by (rule seqr_sleepE)
      from Suc.IH[OF rec Suc.prems(2)] False ok(1,3) t2 show ?thesis
        by (simp add: ecs_list_container_instances_def seqr_def remote_def time_sleep_def)
    qed
  next
    case (failed e)
    then show ?thesis
      by (simp add: ecs_list_container_instances_def seqr_def remote_def)
  qed
qed

lemma await_drained_more_fuel:
  "await_drained fuel B cluster arn w = (r, t, w') \<Longrightarrow> r \<noteq> OutOfFuel \<Longrightarrow>
     await_drained (fuel + k) B cluster arn w = (r, t, w')"
proof (induction fuel arbitrary: w r t w')
  case 0
  then show ?case by simp
next
  case (Suc fuel)
  from Suc.prems(1)[unfolded await_drained.simps ecs_describe_container_instances_def]
  show ?case
  proof (cases rule: seqr_remoteE)
    case (ok described w1 t')
    show ?thesis
    proof (cases described)
      case Nil
      with ok show ?thesis
        by (simp add: ecs_describe_container_instances_def seqr_def remote_def)
    next
      case (Cons ci cis)
      show ?thesis
      proof (cases "runningTasksCount ci = 0")
        case True
        with ok Cons show ?thesis
          by (simp add: ecs_describe_container_instances_def seqr_def remote_def)
      next
        case False
        with ok Cons have "seqr (time_sleep B POLL_INTERVAL)
                     (\<lambda>_. await_drained fuel B cluster arn) w1 = (r, t', w')" by simp
        then obtain t3 where
          rec: "await_drained fuel B cluster arn (sleep B POLL_INTERVAL w1) = (r, t3, w')"
          and t2: "t' = (Sleep POLL_INTERVAL, Ok) # t3"
          by (rule seqr_sleepE)
        from Suc.IH[OF rec Suc.prems(2)] False ok(1,3) t2 Cons show ?thesis
          by (simp add: ecs_describe_container_instances_def seqr_def remote_def time_sleep_def)
      qed
    qed
  next
    case (failed e)
    then show ?thesis
      by (simp add: ecs_describe_container_instances_def seqr_def remote_def)
  qed
qed

lemma recycle_more_fuel:
  "recycle fuel B cfg pd nd i arns w = (r, t, w') \<Longrightarrow> r \<noteq> OutOfFuel \<Longrightarrow>
     recycle (fuel + k) B cfg pd nd i arns w = (r, t, w')"
proof (induction arns arbitrary: i w r t w')
  case Nil
  then show ?case by simp
next
  case (Cons arn rest)
  show ?case
    using Cons.prems unfolding recycle.simps
    apply -
    apply (erule seqr_more, assumption)
     apply (erule (1) wait_for_ecs_count_more_fuel)
    apply (erule seqr_more, assumption, assumption)
    apply (erule seqr_more, assumption, assumption)
    apply (erule seqr_more, assumption)
     apply (erule (1) await_drained_more_fuel)
    apply (erule seqr_more, assumption, assumption)
    apply (simp split: if_splits)
    apply (erule seqr_more, assumption, assumption)
    apply (erule seqr_more, assumption, assumption)
    apply (erule (1) Cons.IH)
    done
qed

lemma handler_more_fuel:
  "handler fuel B cfg event context w = (r, t, w') \<Longrightarrow> r \<noteq> OutOfFuel \<Longrightarrow>
     handler (fuel + k) B cfg event context w = (r, t, w')"
  unfolding handler_def
  apply (erule seqr_more, assumption, assumption)
  apply (erule seqr_more, assumption, assumption)
  apply (erule seqr_more, assumption, assumption)
  apply (erule seqr_more, assumption, assumption)
  apply (erule seqr_more, assumption)
   apply (erule (1) recycle_more_fuel)
  apply assumption
  done

section \<open>Concrete runs\<close>

lemma three_nodes_run:
  "handler 3 scripted cfg0 () () three_nodes =
    (Returned (),
     [(SuspendProcesses ''asg'' SUSPEND_PROCESSES, Ok),
      (DescribeAutoScalingGroups [''asg''], Asgs [\<lparr>DesiredCapacity = 3, MaxSize = 3\<rparr>]),
      (ListContainerInstances ''ecs'', Arns [''A'', ''B'', ''C'']),
      (UpdateAutoScalingGroup ''asg'' 4 4, Ok),
      (ListContainerInstances ''ecs'', Arns [''A'', ''B'', ''C'']),
      (Sleep 15, Ok),
      (ListContainerInstances ''ecs'', Arns [''A'', ''B'', ''C'', ''D'']),
      (Sleep 15, Ok),
      (UpdateContainerInstancesState ''ecs'' [''A''] ''DRAINING'', Ok),
      (DescribeContainerInstances ''ecs'' [''A''],
         Instances [\<lparr>runningTasksCount = 5, ec2InstanceId = ''i-A''\<rparr>]),
      (Sleep 15, Ok),
      (DescribeContainerInstances ''ecs'' [''A''],
         Instances [\<lparr>runningTasksCount = 2, ec2InstanceId = ''i-A''\<rparr>]),
      (Sleep 15, Ok),
      (DescribeContainerInstances ''ecs'' [''A''],
         Instances [\<lparr>runningTasksCount = 0, ec2InstanceId = ''i-A''\<rparr>]),
      (Sleep 15, Ok),
      (TerminateInstanceInAutoScalingGroup ''i-A'' False, Ok),
      (Sleep 15, Ok),
      (ListContainerInstances ''ecs'', Arns [''A'', ''B'', ''C'', ''D'']),
      (Sleep 15, Ok),
      (UpdateContainerInstancesState ''ecs'' [''B''] ''DRAINING'', Ok),
      (DescribeContainerInstances ''ecs'' [''B''],
         Instances [\<lparr>runningTasksCount = 0, ec2InstanceId = ''i-B''\<rparr>]),
      (Sleep 15, Ok),
      (TerminateInstanceInAutoScalingGroup ''i-B'' False, Ok),
      (Sleep 15, Ok),
      (ListContainerInstances ''ecs'', Arns [''A'', ''B'', ''C'', ''D'']),
      (Sleep 15, Ok),
      (UpdateContainerInstancesState ''ecs'' [''C''] ''DRAINING'', Ok),
      (DescribeContainerInstances ''ecs'' [''C''],
         Instances [\<lparr>runningTasksCount = 0, ec2InstanceId = ''i-C''\<rparr>]),
      (Sleep 15, Ok),
      (ResumeProcesses ''asg'' SUSPEND_PROCESSES, Ok),
      (UpdateAutoScalingGroup ''asg'' 3 3, Ok)],
     three_nodes\<lparr>listings := [[''A'', ''B'', ''C'', ''D'']], task_counts := [],
       draining := [''A'', ''B'', ''C''], terminated := [''i-A'', ''i-B''], slept := 165\<rparr>)"
  by (simp add: run_defs world_defs numeral_3_eq_3)

lemma stale_listing_run:
  "handler 2 scripted cfg0 () () stale_listing =
    (Returned (),
     [(SuspendProcesses ''asg'' SUSPEND_PROCESSES, Ok),
      (DescribeAutoScalingGroups [''asg''], Asgs [\<lparr>DesiredCapacity = 3, MaxSize = 3\<rparr>]),
      (ListContainerInstances ''ecs'', Arns [''A'', ''B'', ''C'']),
      (UpdateAutoScalingGroup ''asg'' 4 4, Ok),
      (ListContainerInstances ''ecs'', Arns [''A'', ''B'', ''C'', ''D'']),
      (Sleep 15, Ok),
      (UpdateContainerInstancesState ''ecs'' [''A''] ''DRAINING'', Ok),
      (DescribeContainerInstances ''ecs'' [''A''],
         Instances [\<lparr>runningTasksCount = 0, ec2InstanceId = ''i-A''\<rparr>]),
      (Sleep 15, Ok),
      (TerminateInstanceInAutoScalingGroup ''i-A'' False, Ok),
      (Sleep 15, Ok),
      (ListContainerInstances ''ecs'', Arns [''A'', ''B'', ''C'', ''D'']),
      (Sleep 15, Ok),
      (UpdateContainerInstancesState ''ecs'' [''B''] ''DRAINING'', Ok),
      (DescribeContainerInstances ''ecs'' [''B''],
         Instances [\<lparr>runningTasksCount = 0, ec2InstanceId = ''i-B''\<rparr>]),
      (Sleep 15, Ok),
      (TerminateInstanceInAutoScalingGroup ''i-B'' False, Ok),
      (Sleep 15, Ok),
      (ListContainerInstances ''ecs'', Arns [''C'', ''D'']),
      (Sleep 15, Ok),
      (ListContainerInstances ''ecs'', Arns [''C'', ''D'', ''E'', ''F'']),
      (Sleep 15, Ok),
      (UpdateContainerInstancesState ''ecs'' [''C''] ''DRAINING'', Ok),
      (DescribeContainerInstances ''ecs'' [''C''],
         Instances [\<lparr>runningTasksCount = 0, ec2InstanceId = ''i-C''\<rparr>]),
      (Sleep 15, Ok),
      (ResumeProcesses ''asg'' SUSPEND_PROCESSES, Ok),
      (UpdateAutoScalingGroup ''asg'' 3 3, Ok)],
     stale_listing\<lparr>listings := [[''C'', ''D'', ''E'', ''F'']],
       draining := [''A'', ''B'', ''C''], terminated := [''i-A'', ''i-B''], slept := 135\<rparr>)"
  by (simp add: run_defs world_defs numeral_2_eq_2)

lemma extra_node_run:
  "handler 2 scripted cfg0 () () extra_node =
    (Returned (),
     [(SuspendProcesses ''asg'' SUSPEND_PROCESSES, Ok),
      (DescribeAutoScalingGroups [''asg''], Asgs [\<lparr>DesiredCapacity = 2, MaxSize = 5\<rparr>]),
      (ListContainerInstances ''ecs'', Arns [''A'', ''B'', ''C'']),
      (UpdateAutoScalingGroup ''asg'' 5 3, Ok),
      (ListContainerInstances ''ecs'', Arns [''A'', ''B'', ''C'']),
      (Sleep 15, Ok),
      (UpdateContainerInstancesState ''ecs'' [''A''] ''DRAINING'', Ok),
      (DescribeContainerInstances ''ecs'' [''A''],
         Instances [\<lparr>runningTasksCount = 0, ec2InstanceId = ''i-A''\<rparr>]),
      (Sleep 15, Ok),
      (TerminateInstanceInAutoScalingGroup ''i-A'' False, Ok),
      (Sleep 15, Ok),
      (ListContainerInstances ''ecs'', Arns [''A'', ''B'', ''C'']),
      (Sleep 15, Ok),
      (UpdateContainerInstancesState ''ecs'' [''B''] ''DRAINING'', Ok),
      (DescribeContainerInstances ''ecs'' [''B''],
         Instances [\<lparr>runningTasksCount = 0, ec2InstanceId = ''i-B''\<rparr>]),
      (Sleep 15, Ok),
      (ResumeProcesses ''asg'' SUSPEND_PROCESSES, Ok),
      (UpdateAutoScalingGroup ''asg'' 5 2, Ok)],
     extra_node\<lparr>draining := [''A'', ''B''], terminated := [''i-A''], slept := 75\<rparr>)"
  by (simp add: run_defs world_defs numeral_2_eq_2)

lemma drain_fails_run:
  "handler 2 scripted cfg0 () () drain_fails =
    (Raised (ClientError ''ThrottlingException''),
     [(SuspendProcesses ''asg'' SUSPEND_PROCESSES, Ok),
      (DescribeAutoScalingGroups [''asg''], Asgs [\<lparr>DesiredCapacity = 3, MaxSize = 3\<rparr>]),
      (ListContainerInstances ''ecs'', Arns [''A'', ''B'', ''C'']),
      (UpdateAutoScalingGroup ''asg'' 4 4, Ok),
      (ListContainerInstances ''ecs'', Arns [''A'', ''B'', ''C'', ''D'']),
      (Sleep 15, Ok),
      (UpdateContainerInstancesState ''ecs'' [''A''] ''DRAINING'',
         Failed (ClientError ''ThrottlingException''))],
     drain_fails\<lparr>groups := [\<lparr>DesiredCapacity = 4, MaxSize = 4\<rparr>],
       listings := [[''A'', ''B'', ''C'', ''D'']], suspended := SUSPEND_PROCESSES, slept := 15\<rparr>)"
  by (simp add: run_defs world_defs numeral_2_eq_2)


lemma zero_desired_run:
  "handler 2 scripted cfg0 () () zero_desired =
    (Returned (),
     [(SuspendProcesses ''asg'' SUSPEND_PROCESSES, Ok),
      (DescribeAutoScalingGroups [''asg''], Asgs [\<lparr>DesiredCapacity = 0, MaxSize = 2\<rparr>]),
      (ListContainerInstances ''ecs'', Arns [''A'']),
      (UpdateAutoScalingGroup ''asg'' 2 1, Ok),
      (ListContainerInstances ''ecs'', Arns [''A'']),
      (Sleep 15, Ok),
      (UpdateContainerInstancesState ''ecs'' [''A''] ''DRAINING'', Ok),
      (DescribeContainerInstances ''ecs'' [''A''],
         Instances [\<lparr>runningTasksCount = 3, ec2InstanceId = ''i-A''\<rparr>]),
      (Sleep 15, Ok),
      (DescribeContainerInstances ''ecs'' [''A''],
         Instances [\<lparr>runningTasksCount = 0, ec2InstanceId = ''i-A''\<rparr>]),
      (Sleep 15, Ok),
      (ResumeProcesses ''asg'' SUSPEND_PROCESSES, Ok),
      (UpdateAutoScalingGroup ''asg'' 2 0, Ok)],
     zero_desired\<lparr>task_counts := [], draining := [''A''], slept := 45\<rparr>)"
  by (simp add: run_defs world_defs numeral_2_eq_2)

lemma short_snapshot_run:
  "handler 2 scripted cfg0 () () short_snapshot =
    (Returned (),
     [(SuspendProcesses ''asg'' SUSPEND_PROCESSES, Ok),
      (DescribeAutoScalingGroups [''asg''], Asgs [\<lparr>DesiredCapacity = 3, MaxSize = 3\<rparr>]),
      (ListContainerInstances ''ecs'', Arns [''A'', ''B'']),
      (UpdateAutoScalingGroup ''asg'' 4 4, Ok),
      (ListContainerInstances ''ecs'', Arns [''A'', ''B'', ''C'', ''D'']),
      (Sleep 15, Ok),
      (UpdateContainerInstancesState ''ecs'' [''A''] ''DRAINING'', Ok),
      (DescribeContainerInstances ''ecs'' [''A''],
         Instances [\<lparr>runningTasksCount = 0, ec2InstanceId = ''i-A''\<rparr>]),
      (Sleep 15, Ok),
      (TerminateInstanceInAutoScalingGroup ''i-A'' False, Ok),
      (Sleep 15, Ok),
      (ListContainerInstances ''ecs'', Arns [''A'', ''B'', ''C'', ''D'']),
      (Sleep 15, Ok),
      (UpdateContainerInstancesState ''ecs'' [''B''] ''DRAINING'', Ok),
      (DescribeContainerInstances ''ecs'' [''B''],
         Instances [\<lparr>runningTasksCount = 0, ec2InstanceId = ''i-B''\<rparr>]),
      (Sleep 15, Ok),
      (TerminateInstanceInAutoScalingGroup ''i-B'' False, Ok),
      (Sleep 15, Ok),
      (ResumeProcesses ''asg'' SUSPEND_PROCESSES, Ok),
      (UpdateAutoScalingGroup ''asg'' 3 3, Ok)],
     short_snapshot\<lparr>listings := [[''A'', ''B'', ''C'', ''D'']],
       draining := [''A'', ''B''], terminated := [''i-A'', ''i-B''], slept := 90\<rparr>)"
  by (simp add: run_defs world_defs numeral_2_eq_2)

lemma drain_wait_run:
  "await_drained 3 scripted ''ecs'' ''A'' three_nodes =
    (Returned \<lparr>runningTasksCount = 0, ec2InstanceId = ''i-A''\<rparr>,
     [(DescribeContainerInstances ''ecs'' [''A''],
         Instances [\<lparr>runningTasksCount = 5, ec2InstanceId = ''i-A''\<rparr>]),
      (Sleep 15, Ok),
      (DescribeContainerInstances ''ecs'' [''A''],
         Instances [\<lparr>runningTasksCount = 2, ec2InstanceId = ''i-A''\<rparr>]),
      (Sleep 15, Ok),
      (DescribeContainerInstances ''ecs'' [''A''],
         Instances [\<lparr>runningTasksCount = 0, ec2InstanceId = ''i-A''\<rparr>])],
     three_nodes\<lparr>task_counts := [], slept := 30\<rparr>)"
  by (simp add: run_defs world_defs numeral_3_eq_3)

lemma drain_wait_bounded_run:
  "await_drained 2 scripted ''ecs'' ''A'' three_nodes =
    (OutOfFuel,
     [(DescribeContainerInstances ''ecs'' [''A''],
         Instances [\<lparr>runningTasksCount = 5, ec2InstanceId = ''i-A''\<rparr>]),
      (Sleep 15, Ok),
      (DescribeContainerInstances ''ecs'' [''A''],
         Instances [\<lparr>runningTasksCount = 2, ec2InstanceId = ''i-A''\<rparr>]),
      (Sleep 15, Ok)],
     three_nodes\<lparr>task_counts := [0], slept := 30\<rparr>)"
  by (simp add: run_defs world_defs numeral_2_eq_2)

lemma drain_wait_failed_run:
  "await_drained 3 scripted ''ecs'' ''A'' description_fails =
    (Raised (ClientError ''ThrottlingException''),
     [(DescribeContainerInstances ''ecs'' [''A''],
         Instances [\<lparr>runningTasksCount = 5, ec2InstanceId = ''i-A''\<rparr>]),
      (Sleep 15, Ok),
      (DescribeContainerInstances ''ecs'' [''A''],
         Instances [\<lparr>runningTasksCount = 2, ec2InstanceId = ''i-A''\<rparr>]),
      (Sleep 15, Ok),
      (DescribeContainerInstances ''ecs'' [''A''],
         Failed (ClientError ''ThrottlingException''))],
     description_fails\<lparr>task_counts := [], slept := 30\<rparr>)"
  by (simp add: run_defs world_defs numeral_3_eq_3)

text \<open>The scripted group service stores the settings and the suspended processes.\<close>

lemma scripted_group:
  "update_auto_scaling_group scripted name m d v = (Inr (), v') \<Longrightarrow>
     settings v' = \<lparr>DesiredCapacity = d, MaxSize = m\<rparr> \<and>
     suspended_processes v' = suspended_processes v"
  "resume_processes scripted name ps v = (Inr (), v') \<Longrightarrow>
     suspended_processes v' = suspended_processes v - set ps"
  by (auto simp: scripted_def settings_def suspended_processes_def split: list.splits)

section \<open>The claims\<close>

text \<open>
  Claim C1: between the scale-up and the restore the number of active container
  instances never drops below the original desired capacity. The script means to
  guarantee it and does not. Its comments say that \<open>wait_for_ecs_count\<close> blocks until
  the cluster has the supplied count of active instances and that the loop calls it to
  wait for a new instance to join the cluster; but the count it compares is the length
  of the whole listing, in which an instance the loop itself has just drained and
  terminated is still counted as long as the cluster lists it (the script notes that the
  removal takes a little while and allows one sleep for it).

  The run below is the script on such answers: desired capacity 3, snapshot A, B, C, the
  spare D has joined. The listing polled for the second round still shows the terminated
  A, so the wait is satisfied at once by a count of 4; B is drained and terminated while
  no replacement has joined, and the next listing shows C and D only. The counts observed
  between the scale-up and the cleanup are 4, 4, 2, 4: the third one is below the
  original desired capacity 3. Every call that sets an instance state in this run follows
  a listing of 4 and one sleep, so the wait was never skipped: it counted the wrong
  instances.
\<close>

theorem stale_listing_drops_below_desired:
  "case handler 2 scripted cfg0 () () stale_listing of
     (r, t, w') \<Rightarrow>
       r = Returned () \<and>
       described_group t = Some \<lparr>DesiredCapacity = 3, MaxSize = 3\<rparr> \<and>
       snapshot t = [''A'', ''B'', ''C''] \<and>
       drains_guarded 4 Idle t \<and>
       listing_at_drains [] t =
         [([''A''], [''A'', ''B'', ''C'', ''D'']),
          ([''B''], [''A'', ''B'', ''C'', ''D'']),
          ([''C''], [''C'', ''D'', ''E'', ''F''])] \<and>
       map fst (filter is_terminate t) =
         [TerminateInstanceInAutoScalingGroup ''i-A'' False,
          TerminateInstanceInAutoScalingGroup ''i-B'' False] \<and>
       terminated w' = [''i-A'', ''i-B''] \<and>
       counts_while_scaled_up t = [4, 4, 2, 4]"
  by (simp add: run_defs world_defs numeral_2_eq_2 counts_while_scaled_up_def is_update_def
      is_resume_def is_drain_def is_terminate_def guard_step_def)






text \<open>
  Claim C4. In every run that completes, whatever the number of instances processed: the
  calls that change the group are exactly four, in this order: the suspension of
  \<open>SUSPEND_PROCESSES\<close>, the scale-up, the resumption of the same \<open>SUSPEND_PROCESSES\<close>,
  and the capacity update that sets max size and desired capacity to the values read
  from the group description at the start. The last two are the last entries of the
  trace and both were accepted; the calls of the trace are the calls the group service
  received, and the final world is the one the last of them left.

  What the group is at the end depends on what the service does with these calls, so it
  is stated for every service with the two properties of the real one: an accepted
  capacity update of the group stores the settings it is given and leaves the suspended
  processes as they are, and an accepted resumption takes the processes it is given out
  of the suspended ones. Then, for any way \<open>group_of\<close>, \<open>paused_of\<close> of reading the
  settings and the suspended processes of the group in a world, the settings at the end
  of the run are those read at the start and none of \<open>SUSPEND_PROCESSES\<close> is suspended.
\<close>

theorem completed_run_restores_settings:
  assumes run: "handler fuel B cfg event context w = (Returned (), t, w')"
    and stored: "\<And>m d v v'. update_auto_scaling_group B (ASG_NAME cfg) m d v = (Inr (), v') \<Longrightarrow>
        group_of v' = \<lparr>DesiredCapacity = d, MaxSize = m\<rparr> \<and> paused_of v' = paused_of v"
    and resumed: "\<And>ps v v'. resume_processes B (ASG_NAME cfg) ps v = (Inr (), v') \<Longrightarrow>
        paused_of v' = paused_of v - set ps"
  shows "\<exists>g. described_group t = Some g \<and>
           group_calls t =
             [SuspendProcesses (ASG_NAME cfg) SUSPEND_PROCESSES,
              UpdateAutoScalingGroup (ASG_NAME cfg)
                (new_max_size_of (DesiredCapacity g) (MaxSize g))
                (new_desired_capacity_of (DesiredCapacity g)),
              ResumeProcesses (ASG_NAME cfg) SUSPEND_PROCESSES,
              UpdateAutoScalingGroup (ASG_NAME cfg) (MaxSize g) (DesiredCapacity g)] \<and>
           cleanup_done cfg t \<and>
           replay B t w = Some w' \<and>
           group_of w' = g \<and>
           paused_of w' \<inter> set SUSPEND_PROCESSES = {}"
proof -
  have rp: "replay B t w = Some w'"
  proof -
    have sleeps: "faithful B (time_sleep B n)" for n
      by (simp add: faithful_def time_sleep_def)
    have wait: "faithful B (wait_for_ecs_count n B wanted cluster poll)" for n wanted cluster poll
      by (induction n)
        (auto simp: call_defs
           intro!: faithful_seqr faithful_remote faithful_ret faithful_out_of_fuel sleeps)
    have await: "faithful B (await_drained n B cluster arn)" for n cluster arn
      by (induction n)
        (auto simp: call_defs split: list.split
           intro!: faithful_seqr faithful_remote faithful_ret faithful_raise
             faithful_out_of_fuel sleeps)
    have loop: "faithful B (recycle fuel B cfg pd nd i arns)" for pd nd i arns
      by (induction arns arbitrary: i)
        (auto simp: call_defs
           intro!: faithful_seqr faithful_remote faithful_ret wait await sleeps)
    have "faithful B (handler fuel B cfg event context)"
      unfolding handler_def get_asg_def cleanup_def call_defs
      by (intro faithful_seqr faithful_remote loop)
        (simp_all add: faithful_ret faithful_raise split: list.split)
    from faithfulD[OF this run] show ?thesis .
  qed
  from run show ?thesis
  proof (cases rule: handlerE)
  case (completed g gs arns w4 tr w5)
  from loop_calls_facts(3)[OF recycle_loop_calls[OF completed(2)]]
  have "group_calls tr = []" .
  then have gc: "group_calls t =
             [SuspendProcesses (ASG_NAME cfg) SUSPEND_PROCESSES,
              UpdateAutoScalingGroup (ASG_NAME cfg)
                (new_max_size_of (DesiredCapacity g) (MaxSize g))
                (new_desired_capacity_of (DesiredCapacity g)),
              ResumeProcesses (ASG_NAME cfg) SUSPEND_PROCESSES,
              UpdateAutoScalingGroup (ASG_NAME cfg) (MaxSize g) (DesiredCapacity g)]"
    unfolding completed(3) group_calls_append started_more_facts
    by (simp add: group_calls_def is_group_call_def)
  have dg: "described_group t = Some g"
    unfolding completed(3) by (simp add: started_facts)
  have cd: "cleanup_done cfg t"
    unfolding completed(3) by (rule completed_cleanup_done)
  have "replay B ((started cfg g gs arns @ tr) @
           [(ResumeProcesses (ASG_NAME cfg) SUSPEND_PROCESSES, Ok),
            (UpdateAutoScalingGroup (ASG_NAME cfg) (MaxSize g) (DesiredCapacity g), Ok)]) w
          = Some w'"
    using rp unfolding completed(3) by simp
  from replay_cleanup[OF this] obtain v5 v6 where
    rs: "resume_processes B (ASG_NAME cfg) SUSPEND_PROCESSES v5 = (Inr (), v6)"
    and up: "update_auto_scaling_group B (ASG_NAME cfg) (MaxSize g) (DesiredCapacity g) v6
               = (Inr (), w')"
    by blast
  from stored[OF up] have "group_of w' = g" and p: "paused_of w' = paused_of v6" by simp_all
  moreover from resumed[OF rs] p have "paused_of w' \<inter> set SUSPEND_PROCESSES = {}" by auto
  ultimately show ?thesis using gc dg cd rp by blast
  qed simp_all
qed

theorem completed_run_restores_settings_witness:
  "group_calls (trace (handler 3 scripted cfg0 () () three_nodes)) =
     [SuspendProcesses ''asg'' SUSPEND_PROCESSES, UpdateAutoScalingGroup ''asg'' 4 4,
      ResumeProcesses ''asg'' SUSPEND_PROCESSES, UpdateAutoScalingGroup ''asg'' 3 3] \<and>
   cleanup_done cfg0 (trace (handler 3 scripted cfg0 () () three_nodes)) \<and>
   settings three_nodes = \<lparr>DesiredCapacity = 3, MaxSize = 3\<rparr> \<and>
   settings (world (handler 3 scripted cfg0 () () three_nodes)) =
     \<lparr>DesiredCapacity = 3, MaxSize = 3\<rparr> \<and>
   suspended_processes (world (handler 3 scripted cfg0 () () three_nodes)) = {} \<and>
   length (drained (trace (handler 3 scripted cfg0 () () three_nodes))) = 3 \<and>
   settings extra_node = \<lparr>DesiredCapacity = 2, MaxSize = 5\<rparr> \<and>
   settings (world (handler 2 scripted cfg0 () () extra_node)) =
     \<lparr>DesiredCapacity = 2, MaxSize = 5\<rparr> \<and>
   suspended_processes (world (handler 2 scripted cfg0 () () extra_node)) = {} \<and>
   length (drained (trace (handler 2 scripted cfg0 () () extra_node))) = 2"
  using completed_run_restores_settings[OF three_nodes_run scripted_group]
    completed_run_restores_settings[OF extra_node_run scripted_group]
  unfolding three_nodes_run extra_node_run
  by (simp add: trace_def world_def group_calls_def is_group_call_def drained_def
      settings_def suspended_processes_def three_nodes_def extra_node_def fresh_def
      cfg0_def new_max_size_of_def new_desired_capacity_of_def)




text \<open>
  Claim C6. For \<open>0 \<le> d \<le> m\<close> the scale-up computes the desired capacity \<open>d + 1\<close> and
  the max size \<open>max m (d + 1)\<close>: one more than \<open>m\<close> when \<open>d = m\<close>, unchanged when
  \<open>d < m\<close>. In every run that read the group \<open>(d, m)\<close>, every capacity update the script
  requests has its desired capacity at most its max size, and the capacity updates are
  at most two: the scale-up \<open>(max m (d + 1), d + 1)\<close>, then the restore \<open>(m, d)\<close>.
\<close>

theorem scale_up_capacity_arithmetic:
  assumes "0 \<le> d" and "d \<le> m"
  shows "new_desired_capacity_of d = d + 1 \<and>
         new_max_size_of d m = max m (d + 1) \<and>
         (d = m \<longrightarrow> new_max_size_of d m = m + 1) \<and>
         (d < m \<longrightarrow> new_max_size_of d m = m) \<and>
         new_desired_capacity_of d \<le> new_max_size_of d m \<and>
         (handler fuel B cfg event context w = (r, t, w') \<longrightarrow>
          described_group t = Some \<lparr>DesiredCapacity = d, MaxSize = m\<rparr> \<longrightarrow>
            list_all update_ok t \<and>
            prefix (map fst (filter is_update t))
              [UpdateAutoScalingGroup (ASG_NAME cfg) (max m (d + 1)) (d + 1),
               UpdateAutoScalingGroup (ASG_NAME cfg) m d])"
proof -
  have arith: "new_desired_capacity_of d = d + 1" "new_max_size_of d m = max m (d + 1)"
    "new_desired_capacity_of d \<le> new_max_size_of d m"
    by (simp_all add: new_desired_capacity_of_def new_max_size_of_def)
  have run: "list_all update_ok t \<and>
            prefix (map fst (filter is_update t))
              [UpdateAutoScalingGroup (ASG_NAME cfg) (max m (d + 1)) (d + 1),
               UpdateAutoScalingGroup (ASG_NAME cfg) m d]"
    if h: "handler fuel B cfg event context w = (r, t, w')"
      and g: "described_group t = Some \<lparr>DesiredCapacity = d, MaxSize = m\<rparr>"
    using h
  proof (cases rule: handlerE)
    case (suspend_failed e)
    with g show ?thesis by simp
  next
    case (describe_failed e)
    with g show ?thesis by simp
  next
    case no_group
    with g show ?thesis by simp
  next
    case (list_failed g' gs e)
    then show ?thesis by (simp add: update_ok_def is_update_def)
  next
    case (scale_failed g' gs arns e)
    with g have "g' = \<lparr>DesiredCapacity = d, MaxSize = m\<rparr>" by simp
    with scale_failed arith show ?thesis by (simp add: update_ok_def is_update_def)
  next
    case (loop_stopped g' gs arns w4 tr)
    with g have g': "g' = \<lparr>DesiredCapacity = d, MaxSize = m\<rparr>" by (simp add: started_facts)
    from loop_calls_facts(1,4)[OF recycle_loop_calls[OF loop_stopped(2)]]
    show ?thesis unfolding loop_stopped(3)
      using arith by (simp add: started_more_facts g')
  next
    case (resume_failed g' gs arns w4 tr w5 e)
    with g have g': "g' = \<lparr>DesiredCapacity = d, MaxSize = m\<rparr>" by (simp add: started_facts)
    from loop_calls_facts(1,4)[OF recycle_loop_calls[OF resume_failed(2)]]
    show ?thesis unfolding resume_failed(3)
      using arith by (simp add: started_more_facts g' update_ok_def is_update_def)
  next
    case (restore_failed g' gs arns w4 tr w5 e)
    with g have g': "g' = \<lparr>DesiredCapacity = d, MaxSize = m\<rparr>" by (simp add: started_facts)
    from loop_calls_facts(1,4)[OF recycle_loop_calls[OF restore_failed(2)]]
    show ?thesis unfolding restore_failed(3)
      using arith assms by (simp add: started_more_facts g' update_ok_def is_update_def)
  next
    case (completed g' gs arns w4 tr w5)
    with g have g': "g' = \<lparr>DesiredCapacity = d, MaxSize = m\<rparr>" by (simp add: started_facts)
    from loop_calls_facts(1,4)[OF recycle_loop_calls[OF completed(2)]]
    show ?thesis unfolding completed(3)
      using arith assms by (simp add: started_more_facts g' update_ok_def is_update_def)
  qed
  from arith run assms show ?thesis by auto
qed

theorem scale_up_capacity_arithmetic_witness:
  "(0::int) \<le> 3 \<and> (3::int) \<le> 3 \<and>
   new_desired_capacity_of 3 = 4 \<and> new_max_size_of 3 3 = 4 \<and> new_max_size_of 3 5 = 5 \<and>
   list_all update_ok (trace (handler 3 scripted cfg0 () () three_nodes)) \<and>
   map fst (filter is_update (trace (handler 3 scripted cfg0 () () three_nodes))) =
     [UpdateAutoScalingGroup ''asg'' 4 4, UpdateAutoScalingGroup ''asg'' 3 3]"
proof -
  have a: "(0::int) \<le> 3" and b: "(3::int) \<le> 3" and c: "(3::int) \<le> 5" by simp_all
  from scale_up_capacity_arithmetic[OF a b, of 3 scripted cfg0 "()" "()" three_nodes
      "Returned ()" "trace (handler 3 scripted cfg0 () () three_nodes)"
      "world (handler 3 scripted cfg0 () () three_nodes)"]
    scale_up_capacity_arithmetic[OF a c, of 0 scripted cfg0 "()" "()" three_nodes
      "OutOfFuel" "[]" three_nodes]
  show ?thesis
    unfolding three_nodes_run
    by (simp add: trace_def world_def is_update_def update_ok_def cfg0_def
        new_desired_capacity_of_def new_max_size_of_def)
qed

text \<open>
  Claim C7. For every backend, that is for every sequence of poll results, the trace of
  the drain wait has the shape \<open>waited\<close>: each poll describes the instance; after a poll
  that shows running tasks the wait sleeps exactly one \<open>POLL_INTERVAL\<close> and polls again;
  it returns only at a poll that shows 0, with the instance described there, and so
  never at an earlier poll; it raises only when a description fails or is empty, never
  because of a count. These polls and sleeps are the calls the backend received. There
  is no timeout: under a bound of \<open>fuel\<close> polls, a wait cut off by the bound has made
  \<open>fuel\<close> polls each followed by its sleep, and a wait that ended within the bound ends
  the same way under every larger bound.
\<close>

theorem await_drained_returns_only_at_zero:
  assumes "await_drained fuel B cluster arn w = (r, t, w')"
  shows "waited cluster arn r t \<and>
         replay B t w = Some w' \<and>
         (r = OutOfFuel \<longrightarrow> length t = 2 * fuel) \<and>
         (r \<noteq> OutOfFuel \<longrightarrow> await_drained (fuel + k) B cluster arn w = (r, t, w')) \<and>
         (case r of
            Returned ci \<Rightarrow>
              runningTasksCount ci = 0 \<and>
              (\<exists>n ns. map fst t =
                    concat (replicate n [DescribeContainerInstances cluster [arn], Sleep POLL_INTERVAL])
                    @ [DescribeContainerInstances cluster [arn]] \<and>
                  task_polls t = ns @ [0] \<and> length ns = n \<and> 0 \<notin> set ns)
          | OutOfFuel \<Rightarrow>
              map fst t =
                concat (replicate fuel [DescribeContainerInstances cluster [arn], Sleep POLL_INTERVAL]) \<and>
              length (task_polls t) = fuel \<and> 0 \<notin> set (task_polls t)
          | Raised e \<Rightarrow> 0 \<notin> set (task_polls t))"
proof -
  have sleeps: "faithful B (time_sleep B n)" for n
    by (simp add: faithful_def time_sleep_def)
  have "faithful B (await_drained n B cluster arn)" for n
    by (induction n)
      (auto simp: call_defs split: list.split
         intro!: faithful_seqr faithful_remote faithful_ret faithful_raise
           faithful_out_of_fuel sleeps)
  from faithfulD[OF this assms] have sent: "replay B t w = Some w'" .
  from await_drained_waited[OF assms] sent await_drained_more_fuel[OF assms, of k]
    await_drained_polls[OF assms]
  show ?thesis by simp
qed

theorem await_drained_returns_only_at_zero_witness:
  "outcome (await_drained 3 scripted ''ecs'' ''A'' three_nodes) =
     Returned \<lparr>runningTasksCount = 0, ec2InstanceId = ''i-A''\<rparr> \<and>
   task_polls (trace (await_drained 3 scripted ''ecs'' ''A'' three_nodes)) = [5, 2, 0] \<and>
   waited ''ecs'' ''A'' (Returned \<lparr>runningTasksCount = 0, ec2InstanceId = ''i-A''\<rparr>)
     (trace (await_drained 3 scripted ''ecs'' ''A'' three_nodes)) \<and>
   slept (world (await_drained 3 scripted ''ecs'' ''A'' three_nodes)) = 30 \<and>
   await_drained (3 + 4) scripted ''ecs'' ''A'' three_nodes =
     await_drained 3 scripted ''ecs'' ''A'' three_nodes \<and>
   outcome (await_drained 2 scripted ''ecs'' ''A'' three_nodes) = OutOfFuel \<and>
   task_polls (trace (await_drained 2 scripted ''ecs'' ''A'' three_nodes)) = [5, 2] \<and>
   length (trace (await_drained 2 scripted ''ecs'' ''A'' three_nodes)) = 2 * 2 \<and>
   outcome (await_drained 3 scripted ''ecs'' ''A'' description_fails) =
     Raised (ClientError ''ThrottlingException'') \<and>
   waited ''ecs'' ''A'' (Raised (ClientError ''ThrottlingException''))
     (trace (await_drained 3 scripted ''ecs'' ''A'' description_fails)) \<and>
   snd (last (trace (await_drained 3 scripted ''ecs'' ''A'' description_fails))) =
     Failed (ClientError ''ThrottlingException'')"
  using await_drained_returns_only_at_zero[OF drain_wait_run, of 4]
    await_drained_returns_only_at_zero[OF drain_wait_bounded_run, of 0]
    await_drained_returns_only_at_zero[OF drain_wait_failed_run, of 0]
  unfolding drain_wait_run drain_wait_bounded_run drain_wait_failed_run
  by (simp add: outcome_def trace_def world_def three_nodes_def fresh_def)

text \<open>
  Claim C8. In every run, however it ends: the first three calls are the suspension, the
  group description and the container instance listing, in this order, so the snapshot
  is taken after the group settings are read and before the scale-up, which is the fourth
  call. The instances set to \<open>DRAINING\<close> are, in order, an initial part of that first
  listing, whatever the later listings return: an instance that is not in the snapshot
  is never drained.
\<close>

theorem drains_only_snapshot_nodes:
  assumes "handler fuel B cfg event context w = (r, t, w')"
  shows "prefix (drained t) (snapshot t) \<and>
         set (drained t) \<subseteq> set (snapshot t) \<and>
         prefix (map fst (take 3 t))
           [SuspendProcesses (ASG_NAME cfg) SUSPEND_PROCESSES,
            DescribeAutoScalingGroups [ASG_NAME cfg],
            ListContainerInstances (ECS_CLUSTER cfg)] \<and>
         (3 < length t \<longrightarrow>
            t ! 2 = (ListContainerInstances (ECS_CLUSTER cfg), Arns (snapshot t)) \<and>
            is_update (t ! 3))"
proof -
  have "prefix (drained t) (snapshot t) \<and>
         prefix (map fst (take 3 t))
           [SuspendProcesses (ASG_NAME cfg) SUSPEND_PROCESSES,
            DescribeAutoScalingGroups [ASG_NAME cfg],
            ListContainerInstances (ECS_CLUSTER cfg)] \<and>
         (3 < length t \<longrightarrow>
            t ! 2 = (ListContainerInstances (ECS_CLUSTER cfg), Arns (snapshot t)) \<and>
            is_update (t ! 3))"
    using assms
  proof (cases rule: handlerE)
    case (loop_stopped g gs arns w4 tr)
    from recycle_drained_prefix[OF loop_stopped(2)] show ?thesis
      unfolding loop_stopped(3)
      by (simp add: started_facts drained_append) (simp add: started_def is_update_def)
  next
    case (resume_failed g gs arns w4 tr w5 e)
    from recycle_drained_prefix[OF resume_failed(2)] show ?thesis
      unfolding resume_failed(3)
      by (simp add: started_facts drained_append drained_def[of "[_]"])
        (simp add: started_def is_update_def)
  next
    case (restore_failed g gs arns w4 tr w5 e)
    from recycle_drained_prefix[OF restore_failed(2)] show ?thesis
      unfolding restore_failed(3)
      by (simp add: started_facts drained_append drained_def[of "[_, _]"])
        (simp add: started_def is_update_def)
  next
    case (completed g gs arns w4 tr w5)
    from recycle_drained_prefix[OF completed(2)] show ?thesis
      unfolding completed(3)
      by (simp add: started_facts drained_append drained_def[of "[_, _]"])
        (simp add: started_def is_update_def)
  qed (simp_all add: drained_def is_update_def)
  then show ?thesis by (auto dest: set_mono_prefix)
qed

theorem drains_only_snapshot_nodes_witness:
  "snapshot (trace (handler 3 scripted cfg0 () () three_nodes)) = [''A'', ''B'', ''C''] \<and>
   drained (trace (handler 3 scripted cfg0 () () three_nodes)) = [''A'', ''B'', ''C''] \<and>
   listing_counts (trace (handler 3 scripted cfg0 () () three_nodes)) = [3, 3, 4, 4, 4] \<and>
   (3::nat) < length (trace (handler 3 scripted cfg0 () () three_nodes)) \<and>
   trace (handler 3 scripted cfg0 () () three_nodes) ! 2 =
     (ListContainerInstances ''ecs'', Arns [''A'', ''B'', ''C''])"
  using drains_only_snapshot_nodes[OF three_nodes_run]
  unfolding three_nodes_run
  by (simp add: trace_def drained_def cfg0_def)

text \<open>
  Claim C9. Two invocations of \<open>handler\<close> that differ only in their \<open>event\<close> and
  \<open>context\<close> arguments (of any types), under the same configuration, the same remote
  services and the same initial world, give the same outcome, the same sequence of
  remote operations with the same replies, and the same final world. Every operand of
  every remote operation of a run is taken from the configuration or from the module
  constants (or, for instance arns and ids, from a reply of the remote services).
\<close>

theorem handler_ignores_event_and_context:
  "handler fuel B cfg event1 context1 w = handler fuel B cfg event2 context2 w \<and>
   list_all (configured cfg) (trace (handler fuel B cfg event1 context1 w))"
proof -
  have "handler fuel B cfg event1 context1 w =
      (outcome (handler fuel B cfg event1 context1 w),
       trace (handler fuel B cfg event1 context1 w),
       world (handler fuel B cfg event1 context1 w))"
    by (simp add: outcome_def trace_def world_def)
  from handler_configured[OF this] show ?thesis by (simp add: handler_def)
qed

theorem handler_ignores_event_and_context_witness:
  "handler 3 scripted cfg0 True ''scheduled'' three_nodes = handler 3 scripted cfg0 () () three_nodes \<and>
   list_all (configured cfg0) (trace (handler 3 scripted cfg0 True ''scheduled'' three_nodes)) \<and>
   length (trace (handler 3 scripted cfg0 True ''scheduled'' three_nodes)) = 31"
proof -
  note h = handler_ignores_event_and_context[of 3 scripted cfg0 True "''scheduled''" three_nodes
      "()" "()"]
  from h have eq: "handler 3 scripted cfg0 True ''scheduled'' three_nodes =
      handler 3 scripted cfg0 () () three_nodes" by (rule conjunct1)
  from h have cf: "list_all (configured cfg0)
      (trace (handler 3 scripted cfg0 True ''scheduled'' three_nodes))" by (rule conjunct2)
  have "length (trace (handler 3 scripted cfg0 True ''scheduled'' three_nodes)) = 31"
    unfolding eq three_nodes_run by (simp add: trace_def)
  with eq cf show ?thesis by blast
qed

text \<open>
  Claim C10, as the code does it. With \<open>d\<close> the original desired capacity and the
  snapshot of the run: a run that completes makes exactly
  \<open>min (length snapshot) (max (d - 1) 0)\<close> terminate calls, and no run makes more; the
  calls of the trace are the calls the remote services received. A run that completes
  drains exactly the first \<open>max d 1\<close> snapshot instances, each one as \<open>rounds\<close> says. In
  particular, when \<open>d = 0\<close> and the snapshot is not empty, the first snapshot instance is
  drained and described until it shows no running task, and nothing is terminated; when
  the snapshot is shorter than \<open>d\<close>, every snapshot instance, the last one included, is
  drained and terminated.
\<close>

theorem terminate_call_count:
  assumes "handler fuel B cfg event context w = (r, t, w')"
    and "described_group t = Some g"
  shows "length (filter is_terminate t) \<le> min (length (snapshot t)) (nat (DesiredCapacity g - 1)) \<and>
         replay B t w = Some w' \<and>
         (r = Returned () \<longrightarrow>
            length (filter is_terminate t) =
              min (length (snapshot t)) (nat (DesiredCapacity g - 1)) \<and>
            drained t = take (max 1 (nat (DesiredCapacity g))) (snapshot t) \<and>
            rounds (ECS_CLUSTER cfg) (nat (DesiredCapacity g - 1)) (snapshot t) (filter is_step t) \<and>
            (DesiredCapacity g = 0 \<and> snapshot t \<noteq> [] \<longrightarrow>
               filter is_terminate t = [] \<and> drained t = [hd (snapshot t)] \<and>
               rounds (ECS_CLUSTER cfg) 0 (snapshot t) (filter is_step t)) \<and>
            (int (length (snapshot t)) < DesiredCapacity g \<longrightarrow>
               length (filter is_terminate t) = length (snapshot t) \<and>
               drained t = snapshot t \<and>
               rounds (ECS_CLUSTER cfg) (length (snapshot t)) (snapshot t) (filter is_step t)))"
proof -
  have counts: "length (filter is_terminate t) \<le> min (length (snapshot t)) (nat (DesiredCapacity g - 1)) \<and>
         (r = Returned () \<longrightarrow>
            length (filter is_terminate t) =
              min (length (snapshot t)) (nat (DesiredCapacity g - 1)) \<and>
            drained t = take (max 1 (nat (DesiredCapacity g))) (snapshot t) \<and>
            rounds (ECS_CLUSTER cfg) (nat (DesiredCapacity g - 1)) (snapshot t) (filter is_step t) \<and>
            (DesiredCapacity g = 0 \<and> snapshot t \<noteq> [] \<longrightarrow>
               filter is_terminate t = [] \<and> drained t = [hd (snapshot t)] \<and>
               rounds (ECS_CLUSTER cfg) 0 (snapshot t) (filter is_step t)) \<and>
            (int (length (snapshot t)) < DesiredCapacity g \<longrightarrow>
               length (filter is_terminate t) = length (snapshot t) \<and>
               drained t = snapshot t \<and>
               rounds (ECS_CLUSTER cfg) (length (snapshot t)) (snapshot t) (filter is_step t)))"
    using assms(1)
  proof (cases rule: handlerE)
    case (suspend_failed e)
    then show ?thesis by (simp add: is_terminate_def)
  next
    case (describe_failed e)
    then show ?thesis by (simp add: is_terminate_def)
  next
    case no_group
    then show ?thesis by (simp add: is_terminate_def)
  next
    case (list_failed g' gs e)
    then show ?thesis by (simp add: is_terminate_def)
  next
    case (scale_failed g' gs arns e)
    then show ?thesis by (simp add: is_terminate_def)
  next
    case (loop_stopped g' gs arns w4 tr)
    with assms(2) have g': "g' = g" by (simp add: started_facts)
    from recycle_terminations_le[OF loop_stopped(2)] loop_stopped(1) show ?thesis
      unfolding loop_stopped(3) g' by (simp add: started_facts)
  next
    case (resume_failed g' gs arns w4 tr w5 e)
    with assms(2) have g': "g' = g" by (simp add: started_facts)
    from recycle_terminations_le[OF resume_failed(2)] resume_failed(1) show ?thesis
      unfolding resume_failed(3) g' by (simp add: started_facts is_terminate_def)
  next
    case (restore_failed g' gs arns w4 tr w5 e)
    with assms(2) have g': "g' = g" by (simp add: started_facts)
    from recycle_terminations_le[OF restore_failed(2)] restore_failed(1) show ?thesis
      unfolding restore_failed(3) g' by (simp add: started_facts is_terminate_def)
  next
    case (completed g' gs arns w4 tr w5)
    with assms(2) have g': "g' = g" by (simp add: started_facts)
    note loop = completed(2)[unfolded g']
    have sn: "snapshot t = arns" unfolding completed(3) by (simp add: started_facts)
    have cnt: "filter is_terminate t = filter is_terminate tr"
      unfolding completed(3) by (simp add: started_facts is_terminate_def)
    have dr: "drained t = drained tr"
      unfolding completed(3) by (simp add: started_facts drained_append drained_def[of "[_, _]"])
    have st: "filter is_step t = filter is_step tr"
      unfolding completed(3) by (simp add: started_steps is_step_def)
    from recycle_terminations[OF loop]
    have n: "length (filter is_terminate tr) = min (length arns) (nat (DesiredCapacity g - 1))"
      by simp
    from recycle_drained_returned[OF loop]
    have d: "drained tr = take (max 1 (nat (DesiredCapacity g))) arns" by simp
    from recycle_rounds[OF loop]
    have m: "rounds (ECS_CLUSTER cfg) (nat (DesiredCapacity g - 1)) arns (filter is_step tr)"
      by simp
    have zero: "filter is_terminate tr = [] \<and> drained tr = [hd arns] \<and>
        rounds (ECS_CLUSTER cfg) 0 arns (filter is_step tr)"
      if "DesiredCapacity g = 0" "arns \<noteq> []"
    proof -
      from n that have "length (filter is_terminate tr) = 0" by simp
      moreover from d that have "drained tr = [hd arns]" by (cases arns) simp_all
      moreover from m that have "rounds (ECS_CLUSTER cfg) 0 arns (filter is_step tr)" by simp
      ultimately show ?thesis by simp
    qed
    have short: "length (filter is_terminate tr) = length arns \<and> drained tr = arns \<and>
        rounds (ECS_CLUSTER cfg) (length arns) arns (filter is_step tr)"
      if "int (length arns) < DesiredCapacity g"
    proof -
      from that have "length arns \<le> nat (DesiredCapacity g - 1)" by simp
      from rounds_all[OF this m] n d that show ?thesis by simp
    qed
    from n d m zero short show ?thesis
      unfolding sn cnt dr st using completed(1) by auto
  qed
  have sent: "replay B t w = Some w'"
  proof -
    have sleeps: "faithful B (time_sleep B n)" for n
      by (simp add: faithful_def time_sleep_def)
    have wait: "faithful B (wait_for_ecs_count n B wanted cluster poll)" for n wanted cluster poll
      by (induction n)
        (auto simp: call_defs
           intro!: faithful_seqr faithful_remote faithful_ret faithful_out_of_fuel sleeps)
    have await: "faithful B (await_drained n B cluster arn)" for n cluster arn
      by (induction n)
        (auto simp: call_defs split: list.split
           intro!: faithful_seqr faithful_remote faithful_ret faithful_raise
             faithful_out_of_fuel sleeps)
    have loop: "faithful B (recycle fuel B cfg pd nd i arns)" for pd nd i arns
      by (induction arns arbitrary: i)
        (auto simp: call_defs
           intro!: faithful_seqr faithful_remote faithful_ret wait await sleeps)
    have "faithful B (handler fuel B cfg event context)"
      unfolding handler_def get_asg_def cleanup_def call_defs
      by (intro faithful_seqr faithful_remote loop)
        (simp_all add: faithful_ret faithful_raise split: list.split)
    from faithfulD[OF this assms(1)] show ?thesis .
  qed
  from counts sent show ?thesis by blast
qed

theorem terminate_call_count_witness:
  "described_group (trace (handler 2 scripted cfg0 () () zero_desired)) =
     Some \<lparr>DesiredCapacity = 0, MaxSize = 2\<rparr> \<and>
   outcome (handler 2 scripted cfg0 () () zero_desired) = Returned () \<and>
   snapshot (trace (handler 2 scripted cfg0 () () zero_desired)) = [''A''] \<and>
   filter is_terminate (trace (handler 2 scripted cfg0 () () zero_desired)) = [] \<and>
   drained (trace (handler 2 scripted cfg0 () () zero_desired)) = [''A''] \<and>
   task_polls (trace (handler 2 scripted cfg0 () () zero_desired)) = [3, 0] \<and>
   terminated (world (handler 2 scripted cfg0 () () zero_desired)) = [] \<and>
   described_group (trace (handler 2 scripted cfg0 () () short_snapshot)) =
     Some \<lparr>DesiredCapacity = 3, MaxSize = 3\<rparr> \<and>
   outcome (handler 2 scripted cfg0 () () short_snapshot) = Returned () \<and>
   snapshot (trace (handler 2 scripted cfg0 () () short_snapshot)) = [''A'', ''B''] \<and>
   length (filter is_terminate (trace (handler 2 scripted cfg0 () () short_snapshot))) = 2 \<and>
   drained (trace (handler 2 scripted cfg0 () () short_snapshot)) = [''A'', ''B''] \<and>
   rounds ''ecs'' 2 [''A'', ''B'']
     (filter is_step (trace (handler 2 scripted cfg0 () () short_snapshot))) \<and>
   terminated (world (handler 2 scripted cfg0 () () short_snapshot)) = [''i-A'', ''i-B''] \<and>
   length (filter is_terminate (trace (handler 3 scripted cfg0 () () three_nodes))) = 2 \<and>
   terminated (world (handler 3 scripted cfg0 () () three_nodes)) = [''i-A'', ''i-B'']"
proof -
  have gz: "described_group (trace (handler 2 scripted cfg0 () () zero_desired)) =
     Some \<lparr>DesiredCapacity = 0, MaxSize = 2\<rparr>"
    by (simp add: zero_desired_run trace_def)
  have gs: "described_group (trace (handler 2 scripted cfg0 () () short_snapshot)) =
     Some \<lparr>DesiredCapacity = 3, MaxSize = 3\<rparr>"
    by (simp add: short_snapshot_run trace_def)
  have gt: "described_group (trace (handler 3 scripted cfg0 () () three_nodes)) =
     Some \<lparr>DesiredCapacity = 3, MaxSize = 3\<rparr>"
    by (simp add: three_nodes_run trace_def)
  have rz: "handler 2 scripted cfg0 () () zero_desired =
     (Returned (), trace (handler 2 scripted cfg0 () () zero_desired),
      world (handler 2 scripted cfg0 () () zero_desired))"
    by (simp add: zero_desired_run trace_def world_def)
  have rs: "handler 2 scripted cfg0 () () short_snapshot =
     (Returned (), trace (handler 2 scripted cfg0 () () short_snapshot),
      world (handler 2 scripted cfg0 () () short_snapshot))"
    by (simp add: short_snapshot_run trace_def world_def)
  have rt: "handler 3 scripted cfg0 () () three_nodes =
     (Returned (), trace (handler 3 scripted cfg0 () () three_nodes),
      world (handler 3 scripted cfg0 () () three_nodes))"
    by (simp add: three_nodes_run trace_def world_def)
  have tz: "terminated zero_desired = []"
    by (simp add: zero_desired_def fresh_def)
  from terminate_call_count[OF rz gz] terminate_call_count[OF rs gs]
    terminate_call_count[OF rt gt] gz gs tz
  show ?thesis
    unfolding zero_desired_run short_snapshot_run three_nodes_run
    by (simp add: trace_def world_def outcome_def cfg0_def drained_def is_terminate_def
        is_step_def still_busy_def)
qed

text \<open>
  The claim as stated (for every run the number of terminate calls equals the formula)
  fails for a run that an error cuts short: with desired capacity 3 and the snapshot
  A, B, C the formula gives 2, and the run in which setting the state of A is refused
  raises after no terminate call at all.
\<close>

theorem failed_run_terminates_fewer:
  "outcome (handler 2 scripted cfg0 () () drain_fails) =
     Raised (ClientError ''ThrottlingException'') \<and>
   described_group (trace (handler 2 scripted cfg0 () () drain_fails)) =
     Some \<lparr>DesiredCapacity = 3, MaxSize = 3\<rparr> \<and>
   snapshot (trace (handler 2 scripted cfg0 () () drain_fails)) = [''A'', ''B'', ''C''] \<and>
   length (filter is_terminate (trace (handler 2 scripted cfg0 () () drain_fails))) = 0 \<and>
   min (length (snapshot (trace (handler 2 scripted cfg0 () () drain_fails)))) (nat (3 - 1)) = 2"
  unfolding drain_fails_run
  by (simp add: outcome_def trace_def is_terminate_def)

end
